theory Spec2Isabelle
  imports Main "HOL-Library.Sublist" "HOL-Library.AList" "HOL-Library.Char_ord"
    "HOL-Library.List_Lexorder"
begin

section \<open>Values, errors and the structured logger\<close>

text \<open>
  A Go \<^verbatim>\<open>interface{}\<close> value as the pipeline handles it: the values
  \<^verbatim>\<open>encoding/json\<close> reads and writes, a \<^verbatim>\<open>time.Time\<close>
  (by its RFC 3339 text), and \<open>GOther\<close> for every other Go value (a channel, a
  function, ...). A \<^verbatim>\<open>map[string]interface{}\<close> is an association list
  read with \<open>map_of\<close>; the nil map is \<open>GNil\<close>.
\<close>

datatype goval =
    GNil
  | GBool bool
  | GInt int
  | GFloat string
  | GStr string
  | GTime string
  | GArr "goval list"
  | GMap "(string \<times> goval) list"
  | GOther string

text \<open>
  A Go \<^verbatim>\<open>error\<close>: the package's sentinel
  \<^verbatim>\<open>ErrRedisUnavailable = errors.New("redis is unavailable")\<close>, an error with a
  message, or an error with a message that wraps another one.
\<close>

datatype go_error =
    ErrRedisUnavailable
  | ErrMsg string
  | ErrWrap string go_error

fun error_Error :: "go_error \<Rightarrow> string" where
  "error_Error ErrRedisUnavailable = ''redis is unavailable''"
| "error_Error (ErrMsg s) = s"
| "error_Error (ErrWrap s e) = s"

text \<open>\<^verbatim>\<open>errors.Is(err, ErrRedisUnavailable)\<close>: the sentinel is somewhere on the chain of wrapped errors.\<close>

fun errors_Is_unavailable :: "go_error \<Rightarrow> bool" where
  "errors_Is_unavailable ErrRedisUnavailable = True"
| "errors_Is_unavailable (ErrMsg s) = False"
| "errors_Is_unavailable (ErrWrap s e) = errors_Is_unavailable e"

text \<open>\<^verbatim>\<open>strings.Contains(s, sub)\<close> and \<^verbatim>\<open>strings.HasPrefix(s, p)\<close>.\<close>

fun strings_Contains :: "string \<Rightarrow> string \<Rightarrow> bool" where
  "strings_Contains [] sub = (sub = [])"
| "strings_Contains (c # cs) sub = (prefix sub (c # cs) \<or> strings_Contains cs sub)"

definition strings_HasPrefix :: "string \<Rightarrow> string \<Rightarrow> bool" where
  "strings_HasPrefix s p = prefix p s"

text \<open>
  The zap logger (\<^verbatim>\<open>logger.Logger()\<close>) is the structured-logger collaborator. What
  it is given is kept as a list of records, oldest first.
\<close>

datatype zlevel = ZDebug | ZInfo | ZWarn | ZError | ZFatal

datatype zfield =
    ZString string string
  | ZInt string nat
  | ZErr go_error
  | ZAny string goval

record zrecord =
  zlevel :: zlevel
  zmsg :: string
  zfields :: "zfield list"

section \<open>The state of the process and of its collaborators\<close>

text \<open>The struct \<^verbatim>\<open>logEntry\<close>; its field \<^verbatim>\<open>fields\<close> is \<open>efields\<close> here.\<close>

record logEntry =
  level :: string
  message :: string
  efields :: goval

text \<open>
  The channel \<^verbatim>\<open>make(chan logEntry, queueSize)\<close>: the entries its buffer holds
  (the oldest first), its capacity, whether it has been closed, and its receiver. \<open>recvq\<close>
  says that the dispatcher is blocked in its receive (\<^verbatim>\<open>range a.logQueue\<close> on a
  channel with nothing to receive). A send that finds the dispatcher so blocked passes the
  entry to it directly, whatever the capacity: \<open>handed\<close> is that entry, until the
  dispatcher's next step (\<open>processLogs\<close> below) has processed it. \<open>pending\<close> are the
  entries the dispatcher will process, in the order it will process them.
\<close>

record chan =
  buf :: "logEntry list"
  cap :: nat
  closed :: bool
  recvq :: bool
  handed :: "logEntry option"

definition pending :: "chan \<Rightarrow> logEntry list" where
  "pending q = (case handed q of None \<Rightarrow> [] | Some e \<Rightarrow> [e]) @ buf q"

text \<open>
  The remote sink: the list stored at each key, its head first (what \<^verbatim>\<open>LRANGE key 0 -1\<close>
  and miniredis' \<^verbatim>\<open>List(key)\<close> return), and the sink's answer to a command:
  \<open>reject key payload\<close> is the error it returns, \<open>None\<close> when it accepts.
\<close>

record redis =
  lists :: "string \<Rightarrow> string list"
  reject :: "string \<Rightarrow> string \<Rightarrow> go_error option"

text \<open>
  The package-level variables of \<^verbatim>\<open>logger\<close>, the queue of the \<^verbatim>\<open>Applogs\<close>
  value, and the environment the code reads: the clock and the fallback directory. \<open>files\<close>
  are the regular files of the directory \<open>fallbackPath\<close>, each by its name and its content.
  \<open>readdir_err\<close>, \<open>open_err\<close>, \<open>create_err\<close> and \<open>write_err\<close> are the errors the
  operating system answers \<^verbatim>\<open>os.ReadDir\<close>, \<^verbatim>\<open>os.Open\<close>,
  \<^verbatim>\<open>os.OpenFile\<close> and \<^verbatim>\<open>WriteString\<close> with (\<open>None\<close>: the call
  succeeds). \<^verbatim>\<open>os.Rename\<close> and \<^verbatim>\<open>os.Remove\<close>, whose results the code
  discards, are performed.
\<close>

record world =
  logQueue :: chan
  rdb :: "redis option"
  zlog :: "zrecord list"
  serviceName :: string
  instanceID :: string
  facilityID :: string
  instanceType :: string
  fallbackPath :: string
  files :: "(string \<times> string) list"
  readdir_err :: "go_error option"
  open_err :: "string \<Rightarrow> go_error option"
  create_err :: "string \<Rightarrow> go_error option"
  write_err :: "string \<Rightarrow> go_error option"
  time_Now_UTC :: string
  time_Now_stamp :: string

text \<open>
  How a call can end other than by returning: a run-time panic, or \<^verbatim>\<open>os.Exit\<close>
  (zap's \<^verbatim>\<open>Fatal\<close>). A function that can end so returns \<open>Inl\<close> of the reason
  and of the state at that moment.
\<close>

datatype panic =
    SendOnClosedChannel
  | CloseOfClosedChannel
  | NilPointerDereference
  | InterfaceConversion

datatype abort = Panic panic | OsExit nat

type_synonym 'a outcome = "(abort \<times> world) + 'a"

definition zap :: "world \<Rightarrow> zlevel \<Rightarrow> string \<Rightarrow> zfield list \<Rightarrow> world" where
  "zap w l m fs = w\<lparr>zlog := zlog w @ [\<lparr>zlevel = l, zmsg = m, zfields = fs\<rparr>]\<rparr>"

section \<open>Ingestion queue: \<^verbatim>\<open>logAsync\<close>, the level methods, \<^verbatim>\<open>StopLogger\<close>\<close>

text \<open>
  \<^verbatim>\<open>select { case a.logQueue <- entry: default: logger.Logger().Warn(...) }\<close>.
  A send on a closed channel panics, also inside a \<^verbatim>\<open>select\<close> with a default
  case. On an open channel the send is taken when the dispatcher is blocked in receive (the
  entry goes to it directly) or when the buffer has room; the default case is taken
  otherwise.
\<close>

definition logAsync :: "world \<Rightarrow> string \<Rightarrow> string \<Rightarrow> goval \<Rightarrow> world outcome" where
  "logAsync w lvl msg flds =
     (let entry = \<lparr>level = lvl, message = msg, efields = flds\<rparr>; q = logQueue w in
      if closed q then Inl (Panic SendOnClosedChannel, w)
      else if recvq q then Inr (w\<lparr>logQueue := q\<lparr>recvq := False, handed := Some entry\<rparr>\<rparr>)
      else if length (buf q) < cap q then Inr (w\<lparr>logQueue := q\<lparr>buf := buf q @ [entry]\<rparr>\<rparr>)
      else Inr (zap w ZWarn ''Log queue is full, dropping log''
                  [ZString ''level'' lvl, ZString ''message'' msg]))"

definition Info :: "world \<Rightarrow> string \<Rightarrow> goval \<Rightarrow> world outcome" where
  "Info w msg flds = logAsync w ''info'' msg flds"

definition Debug :: "world \<Rightarrow> string \<Rightarrow> goval \<Rightarrow> world outcome" where
  "Debug w msg flds = logAsync w ''debug'' msg flds"

definition Warn :: "world \<Rightarrow> string \<Rightarrow> goval \<Rightarrow> world outcome" where
  "Warn w msg flds = logAsync w ''warn'' msg flds"

definition Error :: "world \<Rightarrow> string \<Rightarrow> goval \<Rightarrow> world outcome" where
  "Error w msg flds = logAsync w ''error'' msg flds"

definition Fatal :: "world \<Rightarrow> string \<Rightarrow> goval \<Rightarrow> world outcome" where
  "Fatal w msg flds = logAsync w ''fatal'' msg flds"

text \<open>
  \<^verbatim>\<open>close(a.logQueue)\<close>, then the Info record. Closing a closed channel panics;
  closing releases a dispatcher blocked in receive, whose loop then ends.
\<close>

definition StopLogger :: "world \<Rightarrow> world outcome" where
  "StopLogger w =
     (let q = logQueue w in
      if closed q then Inl (Panic CloseOfClosedChannel, w)
      else Inr (zap (w\<lparr>logQueue := q\<lparr>closed := True, recvq := False\<rparr>\<rparr>) ZInfo
                  ''Logger stopped gracefully'' []))"

text \<open>A producer issuing one call after the other; the first call that panics ends the run.\<close>

fun enqueue_all :: "world \<Rightarrow> logEntry list \<Rightarrow> world outcome" where
  "enqueue_all w [] = Inr w"
| "enqueue_all w (e # es) =
     (case logAsync w (level e) (message e) (efields e) of
        Inl a \<Rightarrow> Inl a
      | Inr w' \<Rightarrow> enqueue_all w' es)"

section \<open>Dispatcher: \<^verbatim>\<open>LogToRedis\<close>, \<^verbatim>\<open>logToFallback\<close>, \<^verbatim>\<open>processLogs\<close>\<close>

text \<open>
  \<^verbatim>\<open>json.Marshal\<close> and \<^verbatim>\<open>json.Unmarshal\<close> (into a
  \<^verbatim>\<open>map[string]interface{}\<close>) belong to Go's library: the functions below take
  them as a parameter, and what is proved holds for every such pair.
\<close>

record encoding_json =
  Marshal :: "goval \<Rightarrow> go_error + string"
  Unmarshal :: "string \<Rightarrow> go_error + (string \<times> goval) list"

text \<open>
  \<^verbatim>\<open>rdb.LPush(ctx, key, data).Err()\<close>: Redis' LPUSH inserts the value at the head
  of the list stored at the key.
\<close>

definition LPush :: "redis \<Rightarrow> string \<Rightarrow> string \<Rightarrow> redis \<times> go_error option" where
  "LPush r key data =
     (case reject r key data of
        Some e \<Rightarrow> (r, Some e)
      | None \<Rightarrow> (r\<lparr>lists := (lists r)(key := data # lists r key)\<rparr>, None))"

text \<open>
  The key both \<^verbatim>\<open>LogToRedis\<close> and \<^verbatim>\<open>pushBatchToRedis\<close> build:
  \<^verbatim>\<open>"applogs:" + facilityID + ":" + instanceType + ":" + serviceName + ":" + instanceID\<close>.
\<close>

definition applogs_key :: "string \<Rightarrow> string \<Rightarrow> string \<Rightarrow> string \<Rightarrow> string" where
  "applogs_key facility_id instance_type service_name instance_id =
     ''applogs:'' @ facility_id @ '':'' @ instance_type @ '':'' @ service_name @ '':'' @ instance_id"

definition isRedisUnavailable :: "go_error \<Rightarrow> bool" where
  "isRedisUnavailable err =
     (errors_Is_unavailable err \<or> strings_Contains (error_Error err) ''connection refused'')"

text \<open>
  \<^verbatim>\<open>logToFallback\<close>: the file \<^verbatim>\<open>fallback_<stamp>.log\<close> of the fallback
  directory is opened for appending (created when absent); a failure to open is logged. The
  result of \<^verbatim>\<open>json.Marshal\<close> is used whatever its error (\<^verbatim>\<open>data, _ :=\<close>),
  and the result of \<^verbatim>\<open>WriteString\<close> is discarded: when the write fails nothing
  is appended and nothing is logged.
\<close>

definition fallback_name :: "world \<Rightarrow> string" where
  "fallback_name w = ''fallback_'' @ time_Now_stamp w @ ''.log''"

definition os_create :: "(string \<times> string) list \<Rightarrow> string \<Rightarrow> (string \<times> string) list" where
  "os_create fs name = (case map_of fs name of None \<Rightarrow> AList.update name [] fs | Some c \<Rightarrow> fs)"

definition os_append :: "(string \<times> string) list \<Rightarrow> string \<Rightarrow> string \<Rightarrow> (string \<times> string) list" where
  "os_append fs name txt =
     (case map_of fs name of
        None \<Rightarrow> AList.update name txt fs
      | Some c \<Rightarrow> AList.update name (c @ txt) fs)"

definition logToFallback :: "encoding_json \<Rightarrow> world \<Rightarrow> (string \<times> goval) list \<Rightarrow> world" where
  "logToFallback js w logData =
     (let filename = fallback_name w in
      case create_err w filename of
        Some e \<Rightarrow> zap w ZError ''Failed to open fallback log file'' [ZErr e]
      | None \<Rightarrow>
          (let data = (case Marshal js (GMap logData) of Inl e \<Rightarrow> [] | Inr d \<Rightarrow> d) in
           case write_err w filename of
             Some e \<Rightarrow> w\<lparr>files := os_create (files w) filename\<rparr>
           | None \<Rightarrow> w\<lparr>files := os_append (files w) filename (data @ [CHR 0x0A])\<rparr>))"

definition logData_of :: "world \<Rightarrow> string \<Rightarrow> string \<Rightarrow> goval \<Rightarrow> (string \<times> goval) list" where
  "logData_of w lvl msg flds =
     [(''timestamp'', GTime (time_Now_UTC w)),
      (''level'', GStr lvl),
      (''message'', GStr msg),
      (''metadata'', flds),
      (''service_name'', GStr (serviceName w)),
      (''instance_id'', GStr (instanceID w)),
      (''facility_id'', GStr (facilityID w)),
      (''instance_type'', GStr (instanceType w))]"

definition LogToRedis :: "encoding_json \<Rightarrow> world \<Rightarrow> string \<Rightarrow> string \<Rightarrow> goval \<Rightarrow> world outcome" where
  "LogToRedis js w lvl msg flds =
     (let logData = logData_of w lvl msg flds;
          key = applogs_key (facilityID w) (instanceType w) (serviceName w) (instanceID w) in
      case Marshal js (GMap logData) of
        Inl e \<Rightarrow> Inr (zap w ZError ''Failed to marshal log data to JSON'' [ZErr e])
      | Inr data \<Rightarrow>
          (case rdb w of
             None \<Rightarrow> Inl (Panic NilPointerDereference, w)
           | Some r \<Rightarrow>
               (case LPush r key data of
                  (r', None) \<Rightarrow> Inr (w\<lparr>rdb := Some r'\<rparr>)
                | (r', Some err) \<Rightarrow>
                    if isRedisUnavailable err
                    then Inr (logToFallback js
                                (zap (w\<lparr>rdb := Some r'\<rparr>) ZWarn
                                   ''Redis unavailable, saving to fallback'' [ZErr err])
                                logData)
                    else Inr (zap (w\<lparr>rdb := Some r'\<rparr>) ZError
                                ''Failed to push log to Redis'' [ZErr err]))))"

text \<open>
  The body of the loop of \<^verbatim>\<open>processLogs\<close> for one received entry: the remote
  write, then the mirror record at the entry's level. zap's \<^verbatim>\<open>Fatal\<close> writes the
  record and calls \<^verbatim>\<open>os.Exit(1)\<close>.
\<close>

definition process_entry :: "encoding_json \<Rightarrow> world \<Rightarrow> logEntry \<Rightarrow> world outcome" where
  "process_entry js w entry =
     (case LogToRedis js w (level entry) (message entry) (efields entry) of
        Inl a \<Rightarrow> Inl a
      | Inr w1 \<Rightarrow>
          (let md = [ZAny ''metadata'' (efields entry)] in
           if level entry = ''info'' then Inr (zap w1 ZInfo (message entry) md)
           else if level entry = ''debug'' then Inr (zap w1 ZDebug (message entry) md)
           else if level entry = ''warn'' then Inr (zap w1 ZWarn (message entry) md)
           else if level entry = ''error'' then Inr (zap w1 ZError (message entry) md)
           else if level entry = ''fatal'' then Inl (OsExit 1, zap w1 ZFatal (message entry) md)
           else Inr w1))"

text \<open>
  \<^verbatim>\<open>for entry := range a.logQueue\<close>: the entry passed to the dispatcher directly,
  if there is one, and then the entries the buffer holds are processed one at a time, the
  oldest first, each one leaving the buffer when it is received. \<open>processLogs\<close> returns the
  state in which nothing is left to receive: the dispatcher is then blocked in receive, or,
  when the channel is closed, its loop has ended.
\<close>

fun consume :: "encoding_json \<Rightarrow> world \<Rightarrow> logEntry list \<Rightarrow> world outcome" where
  "consume js w [] = Inr w"
| "consume js w (e # es) =
     (case process_entry js (w\<lparr>logQueue := (logQueue w)\<lparr>buf := es\<rparr>\<rparr>) e of
        Inl a \<Rightarrow> Inl a
      | Inr w' \<Rightarrow> consume js w' es)"

definition processLogs :: "encoding_json \<Rightarrow> world \<Rightarrow> world outcome" where
  "processLogs js w =
     (case consume js (w\<lparr>logQueue := (logQueue w)\<lparr>handed := None\<rparr>\<rparr>) (pending (logQueue w)) of
        Inl a \<Rightarrow> Inl a
      | Inr w' \<Rightarrow> Inr (w'\<lparr>logQueue := (logQueue w')\<lparr>recvq := \<not> closed (logQueue w')\<rparr>\<rparr>))"

section \<open>Recovery scanner: \<^verbatim>\<open>recoverFallbackLogs\<close>, \<^verbatim>\<open>pushBatchToRedis\<close>\<close>

text \<open>
  \<^verbatim>\<open>filepath.Ext\<close>: the suffix that starts at the last dot of the last element of
  the path, empty when that element has no dot. \<open>ext_rev\<close> walks the reversed path as
  the library's loop walks the path from its end.
\<close>

fun ext_rev :: "string \<Rightarrow> string \<Rightarrow> string" where
  "ext_rev [] acc = []"
| "ext_rev (c # cs) acc =
     (if c = CHR ''/'' then []
      else if c = CHR ''.'' then c # acc
      else ext_rev cs (c # acc))"

definition filepath_Ext :: "string \<Rightarrow> string" where
  "filepath_Ext path = ext_rev (rev path) []"

text \<open>The test of line 185: the entries of the directory a cycle processes.\<close>

definition is_fallback_file :: "string \<Rightarrow> bool" where
  "is_fallback_file name =
     (filepath_Ext name = ''.log'' \<and> strings_HasPrefix name ''fallback_'')"

text \<open>
  \<^verbatim>\<open>filepath.Join(fallbackPath, name)\<close>, used for the text of the log records; a
  file of the directory is identified by its name.
\<close>

definition filepath_Join :: "string \<Rightarrow> string \<Rightarrow> string" where
  "filepath_Join dir name = (if dir = [] then name else dir @ ''/'' @ name)"

text \<open>
  \<^verbatim>\<open>bufio.Scanner\<close> with its default split function and buffer: the content is cut
  at each newline, a last line without newline counts when it is not empty, one trailing
  carriage return is dropped from each line, and scanning stops with
  \<^verbatim>\<open>bufio.ErrTooLong\<close> at the first line of \<^verbatim>\<open>MaxScanTokenSize\<close> bytes or
  more. \<open>Scanner_lines\<close> gives the lines \<^verbatim>\<open>Scan\<close> delivers and whether
  \<^verbatim>\<open>scanner.Err()\<close> is set.
\<close>

fun split_lines :: "string \<Rightarrow> string \<Rightarrow> string list" where
  "split_lines acc [] = (if acc = [] then [] else [rev acc])"
| "split_lines acc (c # cs) =
     (if c = CHR 0x0A then rev acc # split_lines [] cs else split_lines (c # acc) cs)"

definition dropCR :: "string \<Rightarrow> string" where
  "dropCR l = (if l \<noteq> [] \<and> last l = CHR 0x0D then butlast l else l)"

definition MaxScanTokenSize :: nat where
  "MaxScanTokenSize = 64 * 1024"

definition ErrTooLong :: go_error where
  "ErrTooLong = ErrMsg ''bufio.Scanner: token too long''"

definition Scanner_lines :: "string \<Rightarrow> string list \<times> bool" where
  "Scanner_lines content =
     (let raw = split_lines [] content;
          ok = takeWhile (\<lambda>l. length l < MaxScanTokenSize) raw
      in (map dropCR ok, length ok < length raw))"

text \<open>
  The loop of lines 199 to 215 over the lines the scanner delivers: an empty line is skipped,
  a line \<^verbatim>\<open>json.Unmarshal\<close> rejects is logged and marks the file corrupt, any
  other line adds its record to the batch.
\<close>

fun scan_loop ::
  "encoding_json \<Rightarrow> string \<Rightarrow> world \<Rightarrow> (string \<times> goval) list list \<Rightarrow> bool \<Rightarrow> string list
     \<Rightarrow> world \<times> (string \<times> goval) list list \<times> bool" where
  "scan_loop js filePath w batchLogs corrupt [] = (w, batchLogs, corrupt)"
| "scan_loop js filePath w batchLogs corrupt (line # ls) =
     (if length line = 0 then scan_loop js filePath w batchLogs corrupt ls
      else case Unmarshal js line of
             Inl e \<Rightarrow>
               scan_loop js filePath
                 (zap w ZError ''Invalid JSON in fallback log line''
                    [ZString ''file'' filePath, ZString ''line'' line])
                 batchLogs True ls
           | Inr logData \<Rightarrow> scan_loop js filePath w (batchLogs @ [logData]) corrupt ls)"

text \<open>
  The type assertion \<^verbatim>\<open>logData[k].(string)\<close>: it panics when the key is absent or
  its value is not a string. \<open>batch_key\<close> is the key of lines 248 to 251, its four
  assertions in the order the expression evaluates them.
\<close>

definition assert_string :: "goval option \<Rightarrow> string option" where
  "assert_string v = (case v of Some (GStr s) \<Rightarrow> Some s | _ \<Rightarrow> None)"

definition batch_key :: "(string \<times> goval) list \<Rightarrow> string option" where
  "batch_key logData =
     (case assert_string (map_of logData ''facility_id'') of
        None \<Rightarrow> None
      | Some f \<Rightarrow>
     (case assert_string (map_of logData ''instance_type'') of
        None \<Rightarrow> None
      | Some t \<Rightarrow>
     (case assert_string (map_of logData ''service_name'') of
        None \<Rightarrow> None
      | Some s \<Rightarrow>
     (case assert_string (map_of logData ''instance_id'') of
        None \<Rightarrow> None
      | Some i \<Rightarrow> Some (applogs_key f t s i)))))"

text \<open>The first loop of \<^verbatim>\<open>pushBatchToRedis\<close>: the commands queued on the pipeline.\<close>

fun queue_cmds ::
  "encoding_json \<Rightarrow> world \<Rightarrow> (string \<times> string) list \<Rightarrow> (string \<times> goval) list list
     \<Rightarrow> (world \<times> (string \<times> string) list) outcome" where
  "queue_cmds js w pipe [] = Inr (w, pipe)"
| "queue_cmds js w pipe (logData # rest) =
     (case batch_key logData of
        None \<Rightarrow> Inl (Panic InterfaceConversion, w)
      | Some key \<Rightarrow>
          (case Marshal js (GMap logData) of
             Inl e \<Rightarrow>
               queue_cmds js (zap w ZError ''Failed to marshal log data to JSON'' [ZErr e]) pipe rest
           | Inr data \<Rightarrow> queue_cmds js w (pipe @ [(key, data)]) rest))"

text \<open>
  \<^verbatim>\<open>pipe.Exec(ctx)\<close>: the queued commands are sent in order, each one gets its own
  result, and the error of the call is that of the first command that failed. An empty
  pipeline returns no error.
\<close>

fun exec_cmds :: "redis \<Rightarrow> (string \<times> string) list \<Rightarrow> redis \<times> go_error option list" where
  "exec_cmds r [] = (r, [])"
| "exec_cmds r ((key, data) # cs) =
     (case LPush r key data of
        (r', e) \<Rightarrow> (case exec_cmds r' cs of (r'', es) \<Rightarrow> (r'', e # es)))"

definition first_err :: "go_error option list \<Rightarrow> go_error option" where
  "first_err es = (case filter (\<lambda>e. e \<noteq> None) es of [] \<Rightarrow> None | e # rest \<Rightarrow> e)"

definition Pipeline_Exec ::
  "redis \<Rightarrow> (string \<times> string) list \<Rightarrow> redis \<times> go_error option list \<times> go_error option" where
  "Pipeline_Exec r cmds = (case exec_cmds r cmds of (r', es) \<Rightarrow> (r', es, first_err es))"

text \<open>The loop of lines 272 to 279 over the commands' own errors.\<close>

fun check_cmds ::
  "world \<Rightarrow> go_error option \<Rightarrow> ((string \<times> string) \<times> go_error option) list
     \<Rightarrow> world \<times> go_error option" where
  "check_cmds w finalErr [] = (w, finalErr)"
| "check_cmds w finalErr (((key, data), None) # cs) = check_cmds w finalErr cs"
| "check_cmds w finalErr (((key, data), Some e) # cs) =
     check_cmds
       (zap w ZWarn ''Failed to push individual log to Redis''
          [ZString ''cmd'' (''lpush '' @ key @ '' '' @ data), ZErr e])
       (Some e) cs"

definition pushBatchToRedis ::
  "encoding_json \<Rightarrow> world \<Rightarrow> (string \<times> goval) list list \<Rightarrow> (world \<times> go_error option) outcome" where
  "pushBatchToRedis js w logs =
     (case rdb w of
        None \<Rightarrow> Inl (Panic NilPointerDereference, w)
      | Some r \<Rightarrow>
          (case queue_cmds js w [] logs of
             Inl a \<Rightarrow> Inl a
           | Inr (w1, pipe) \<Rightarrow>
               (case Pipeline_Exec r pipe of
                  (r', es, Some err) \<Rightarrow>
                    Inr (zap (w1\<lparr>rdb := Some r'\<rparr>) ZWarn ''Pipeline execution failed'' [ZErr err],
                         Some err)
                | (r', es, None) \<Rightarrow> Inr (check_cmds (w1\<lparr>rdb := Some r'\<rparr>) None (zip pipe es)))))"

text \<open>
  The body of the loop of \<^verbatim>\<open>recoverFallbackLogs\<close> for one entry of the directory
  that passed the test of line 185. \<open>os_open\<close> is \<^verbatim>\<open>os.Open\<close>; \<open>push_step\<close> is
  lines 218 to 226 and gives \<^verbatim>\<open>redisPushFailed\<close>; \<open>dispose\<close> is lines 233 to 237.
\<close>

definition os_open :: "world \<Rightarrow> string \<Rightarrow> go_error + string" where
  "os_open w name =
     (case open_err w name of
        Some e \<Rightarrow> Inl e
      | None \<Rightarrow>
          (case map_of (files w) name of
             None \<Rightarrow> Inl (ErrMsg ''no such file or directory'')
           | Some content \<Rightarrow> Inr content))"

definition os_rename :: "(string \<times> string) list \<Rightarrow> string \<Rightarrow> string \<Rightarrow> (string \<times> string) list" where
  "os_rename fs old new =
     (case map_of fs old of
        None \<Rightarrow> fs
      | Some content \<Rightarrow> AList.update new content (AList.delete old fs))"

definition os_remove :: "(string \<times> string) list \<Rightarrow> string \<Rightarrow> (string \<times> string) list" where
  "os_remove fs name = AList.delete name fs"

definition push_step ::
  "encoding_json \<Rightarrow> string \<Rightarrow> world \<Rightarrow> (string \<times> goval) list list \<Rightarrow> (world \<times> bool) outcome" where
  "push_step js filePath w batchLogs =
     (if length batchLogs > 0 then
        (case pushBatchToRedis js w batchLogs of
           Inl a \<Rightarrow> Inl a
         | Inr (w', Some err) \<Rightarrow> Inr (w', True)
         | Inr (w', None) \<Rightarrow>
             Inr (zap w' ZInfo ''Batch log successfully sent to Redis''
                    [ZString ''file'' filePath, ZInt ''count'' (length batchLogs)],
                  False))
      else Inr (w, False))"

definition dispose :: "world \<Rightarrow> string \<Rightarrow> bool \<Rightarrow> bool \<Rightarrow> world" where
  "dispose w name corrupt redisPushFailed =
     (if corrupt then w\<lparr>files := os_rename (files w) name (name @ ''.corrupt'')\<rparr>
      else if \<not> redisPushFailed then w\<lparr>files := os_remove (files w) name\<rparr>
      else w)"

definition recover_file :: "encoding_json \<Rightarrow> world \<Rightarrow> string \<Rightarrow> world outcome" where
  "recover_file js w name =
     (let filePath = filepath_Join (fallbackPath w) name in
      case os_open w name of
        Inl e \<Rightarrow> Inr (zap w ZError ''Failed to read fallback log'' [ZString ''file'' filePath, ZErr e])
      | Inr content \<Rightarrow>
          (case Scanner_lines content of
             (ls, too_long) \<Rightarrow>
               (case scan_loop js filePath w [] False ls of
                  (w1, batchLogs, corrupt) \<Rightarrow>
                    (case push_step js filePath w1 batchLogs of
                       Inl a \<Rightarrow> Inl a
                     | Inr (w2, redisPushFailed) \<Rightarrow>
                         (let w3 = (if too_long
                                    then zap w2 ZError ''Error reading fallback log line by line''
                                           [ZErr ErrTooLong]
                                    else w2)
                          in Inr (dispose w3 name corrupt redisPushFailed))))))"

text \<open>
  \<^verbatim>\<open>os.ReadDir\<close> lists the directory sorted by file name. The loop of line 184 runs
  over that listing, taken once at the start of the cycle.
\<close>

definition os_ReadDir :: "(string \<times> string) list \<Rightarrow> string list" where
  "os_ReadDir fs = sort (map fst fs)"

fun scan_files :: "encoding_json \<Rightarrow> world \<Rightarrow> string list \<Rightarrow> world outcome" where
  "scan_files js w [] = Inr w"
| "scan_files js w (name # names) =
     (if is_fallback_file name then
        (case recover_file js w name of
           Inl a \<Rightarrow> Inl a
         | Inr w' \<Rightarrow> scan_files js w' names)
      else scan_files js w names)"

definition recoverFallbackLogs :: "encoding_json \<Rightarrow> world \<Rightarrow> world outcome" where
  "recoverFallbackLogs js w =
     (case rdb w of
        None \<Rightarrow> Inr (zap w ZError ''Redis client is not set. Skipping recovery.'' [])
      | Some r \<Rightarrow>
          (case readdir_err w of
             Some e \<Rightarrow> Inr (zap w ZError ''Failed to scan fallback directory'' [ZErr e])
           | None \<Rightarrow> scan_files js w (os_ReadDir (files w))))"

section \<open>A codec and states for the examples\<close>

text \<open>
  A JSON printer for the examples below, in the layout of \<^verbatim>\<open>json.Marshal\<close>: the
  members of an object sorted by key, no white space; it quotes a string as it is (the
  examples use no character that needs an escape) and rejects \<open>GOther\<close> values and the
  integers (the examples hold none).
\<close>

definition json_quote :: "string \<Rightarrow> string" where
  "json_quote s = CHR 0x22 # s @ [CHR 0x22]"

fun join_comma :: "string list \<Rightarrow> string" where
  "join_comma [] = []"
| "join_comma [x] = x"
| "join_comma (x # y # ys) = x @ '','' @ join_comma (y # ys)"

fun json_show :: "goval \<Rightarrow> string option"
  and json_show_list :: "goval list \<Rightarrow> string list option"
  and json_show_members :: "(string \<times> goval) list \<Rightarrow> (string \<times> string) list option" where
  "json_show GNil = Some ''null''"
| "json_show (GBool b) = Some (if b then ''true'' else ''false'')"
| "json_show (GInt i) = None"
| "json_show (GFloat s) = Some s"
| "json_show (GStr s) = Some (json_quote s)"
| "json_show (GTime s) = Some (json_quote s)"
| "json_show (GArr vs) = map_option (\<lambda>ts. ''['' @ join_comma ts @ '']'') (json_show_list vs)"
| "json_show (GMap kvs) =
     map_option
       (\<lambda>ms. ''{'' @ join_comma (map (\<lambda>(k, t). json_quote k @ '':'' @ t) (sort_key fst ms)) @ ''}'')
       (json_show_members kvs)"
| "json_show (GOther s) = None"
| "json_show_list [] = Some []"
| "json_show_list (v # vs) =
     (case json_show v of
        None \<Rightarrow> None
      | Some t \<Rightarrow> map_option (\<lambda>ts. t # ts) (json_show_list vs))"
| "json_show_members [] = Some []"
| "json_show_members ((k, v) # kvs) =
     (case json_show v of
        None \<Rightarrow> None
      | Some t \<Rightarrow> map_option (\<lambda>ts. (k, t) # ts) (json_show_members kvs))"

text \<open>
  The record of the examples' spool files, the line that holds it, and (below) a reader that
  knows the lines of the examples' records, the empty object and the line
  \<^verbatim>\<open>null\<close>, and rejects every other text.
\<close>

definition example_record :: "(string \<times> goval) list" where
  "example_record =
     [(''facility_id'', GStr ''F1''), (''instance_id'', GStr ''i-1''),
      (''instance_type'', GStr ''api''), (''level'', GStr ''info''), (''message'', GStr ''f''),
      (''service_name'', GStr ''svc'')]"

definition example_line :: string where
  "example_line = (case json_show (GMap example_record) of None \<Rightarrow> [] | Some t \<Rightarrow> t)"

text \<open>
  The same record with a message of \<^verbatim>\<open>MaxScanTokenSize\<close> characters, and its line.
\<close>

definition long_record :: "(string \<times> goval) list" where
  "long_record =
     [(''facility_id'', GStr ''F1''), (''instance_id'', GStr ''i-1''),
      (''instance_type'', GStr ''api''), (''level'', GStr ''info''),
      (''message'', GStr (replicate MaxScanTokenSize (CHR ''x''))),
      (''service_name'', GStr ''svc'')]"

definition long_line :: string where
  "long_line = (case json_show (GMap long_record) of None \<Rightarrow> [] | Some t \<Rightarrow> t)"

definition example_Unmarshal :: "string \<Rightarrow> go_error + (string \<times> goval) list" where
  "example_Unmarshal line =
     (if line = example_line then Inr example_record
      else if line = long_line then Inr long_record
      else if line = ''{}'' \<or> line = ''null'' then Inr []
      else Inl (ErrMsg ''invalid character''))"

definition example_json :: encoding_json where
  "example_json =
     \<lparr>Marshal = (\<lambda>v. case json_show v of
                          None \<Rightarrow> Inl (ErrMsg ''json: unsupported type'')
                        | Some t \<Rightarrow> Inr t),
      Unmarshal = example_Unmarshal\<rparr>"

text \<open>
  A sink that accepts every command, one that refuses every connection, and one that answers
  every command with an error of another kind.
\<close>

definition healthy_sink :: redis where
  "healthy_sink = \<lparr>lists = (\<lambda>k. []), reject = (\<lambda>k d. None)\<rparr>"

definition down_sink :: redis where
  "down_sink =
     \<lparr>lists = (\<lambda>k. []),
      reject = (\<lambda>k d. Some (ErrMsg ''dial tcp 127.0.0.1:6379: connect: connection refused''))\<rparr>"


text \<open>
  The state after \<^verbatim>\<open>NewLogger(n)\<close>, once the dispatcher it starts is blocked in
  receive, with the identity fields fixed, an empty fallback directory and an operating
  system that performs every call.
\<close>

definition example_world :: "nat \<Rightarrow> redis \<Rightarrow> world" where
  "example_world n r =
     \<lparr>logQueue = \<lparr>buf = [], cap = n, closed = False, recvq = True, handed = None\<rparr>,
      rdb = Some r,
      zlog = [],
      serviceName = ''svc'',
      instanceID = ''i-1'',
      facilityID = ''F1'',
      instanceType = ''api'',
      fallbackPath = ''logs/fallback'',
      files = [],
      readdir_err = None,
      open_err = (\<lambda>n. None),
      create_err = (\<lambda>n. None),
      write_err = (\<lambda>n. None),
      time_Now_UTC = ''2024-05-01T10:00:00Z'',
      time_Now_stamp = ''20240501100000''\<rparr>"

text \<open>
  The same state with a dispatcher that is not blocked in receive: it has not run yet, or it
  is busy with an entry and stalled there.
\<close>

definition stalled_world :: "nat \<Rightarrow> redis \<Rightarrow> world" where
  "stalled_world n r =
     (example_world n r)\<lparr>logQueue := \<lparr>buf = [], cap = n, closed = False, recvq = False,
                                        handed = None\<rparr>\<rparr>"

text \<open>Sequencing of calls that can panic or exit.\<close>

definition and_then :: "'a outcome \<Rightarrow> ('a \<Rightarrow> 'b outcome) \<Rightarrow> 'b outcome" where
  "and_then x f = (case x of Inl a \<Rightarrow> Inl a | Inr v \<Rightarrow> f v)"

text \<open>
  The scenario: \<^verbatim>\<open>NewLogger(10)\<close>, the three calls, then the dispatcher receives
  what the queue holds.
\<close>

definition scenario :: "world outcome" where
  "scenario =
     and_then (Info (example_world 10 healthy_sink) ''a'' (GMap [(''k'', GStr ''v1'')])) (\<lambda>w1.
     and_then (Warn w1 ''b'' (GMap [(''k'', GStr ''v2'')])) (\<lambda>w2.
     and_then (Error w2 ''c'' (GMap [(''k'', GStr ''v3'')])) (\<lambda>w3.
     processLogs example_json w3)))"

text \<open>The state after \<^verbatim>\<open>NewLogger(10)\<close> and \<^verbatim>\<open>StopLogger()\<close>.\<close>

definition stopped_world :: world where
  "stopped_world =
     zap ((example_world 10 healthy_sink)
            \<lparr>logQueue := \<lparr>buf = [], cap = 10, closed = True, recvq = False, handed = None\<rparr>\<rparr>)
       ZInfo ''Logger stopped gracefully'' []"

text \<open>
  The key of a replayed record, as the specification words it with the prefix the code adds:
  built from the four identity fields the record itself holds, each of them a string.
\<close>

definition own_key :: "(string \<times> goval) list \<Rightarrow> string \<Rightarrow> bool" where
  "own_key logData key =
     (\<exists>f t s i. map_of logData ''facility_id'' = Some (GStr f)
        \<and> map_of logData ''instance_type'' = Some (GStr t)
        \<and> map_of logData ''service_name'' = Some (GStr s)
        \<and> map_of logData ''instance_id'' = Some (GStr i)
        \<and> key = ''applogs:'' @ f @ '':'' @ t @ '':'' @ s @ '':'' @ i)"

text \<open>The accepting sink after the examples' record has been replayed to it.\<close>

definition replayed_sink :: redis where
  "replayed_sink = healthy_sink\<lparr>lists := (lists healthy_sink)(''applogs:F1:api:svc:i-1'' := [example_line])\<rparr>"

text \<open>
  The state of the examples with the sink refusing connections and a full disk: the
  fallback file can be opened, and every write to it fails.
\<close>

definition disk_full_world :: world where
  "disk_full_world =
     (example_world 10 down_sink)\<lparr>write_err := (\<lambda>n. Some (ErrMsg ''write: no space left on device''))\<rparr>"

text \<open>The same state with a fallback directory in which no file can be opened.\<close>

definition no_open_world :: world where
  "no_open_world =
     (example_world 10 down_sink)\<lparr>create_err := (\<lambda>n. Some (ErrMsg ''open: permission denied''))\<rparr>"

text \<open>The state a call ends in, whether it returns or not.\<close>

definition world_of :: "world outcome \<Rightarrow> world" where
  "world_of x = (case x of Inl (a, w) \<Rightarrow> w | Inr w \<Rightarrow> w)"

text \<open>A spool file with one line that does not parse and one that holds the record.\<close>

definition spool_name :: string where
  "spool_name = ''fallback_20240430235959.log''"

definition corrupt_world :: world where
  "corrupt_world =
     (example_world 10 healthy_sink)
       \<lparr>files := [(spool_name, ''not json'' @ [CHR 0x0A] @ example_line @ [CHR 0x0A])]\<rparr>"

text \<open>The directory after that file has been quarantined.\<close>

definition quarantined_world :: world where
  "quarantined_world =
     (example_world 10 healthy_sink)
       \<lparr>files := [(spool_name @ ''.corrupt'', ''not json'' @ [CHR 0x0A] @ example_line @ [CHR 0x0A])]\<rparr>"

text \<open>
  What the loop over the lines of a file collects, said directly: the records of the lines
  that are not empty and that \<^verbatim>\<open>json.Unmarshal\<close> accepts, in order, and whether
  some line that is not empty is rejected.
\<close>

definition records_of :: "encoding_json \<Rightarrow> string list \<Rightarrow> (string \<times> goval) list list" where
  "records_of js ls =
     concat (map (\<lambda>l. if l = [] then []
                        else (case Unmarshal js l of Inl e \<Rightarrow> [] | Inr r \<Rightarrow> [r])) ls)"

definition has_bad_line :: "encoding_json \<Rightarrow> string list \<Rightarrow> bool" where
  "has_bad_line js ls = list_ex (\<lambda>l. l \<noteq> [] \<and> isl (Unmarshal js l)) ls"

text \<open>
  The commands of a batch, said directly: one per record that \<^verbatim>\<open>json.Marshal\<close>
  accepts, at the key of the record. \<open>accepted\<close>: the sink accepts every one of them (the
  grouped write reports no failure).
\<close>

definition batch_cmds :: "encoding_json \<Rightarrow> (string \<times> goval) list list \<Rightarrow> (string \<times> string) list" where
  "batch_cmds js logs =
     concat (map (\<lambda>r. case batch_key r of
                          None \<Rightarrow> []
                        | Some k \<Rightarrow> (case Marshal js (GMap r) of Inl e \<Rightarrow> [] | Inr d \<Rightarrow> [(k, d)]))
                 logs)"

definition accepted :: "redis \<Rightarrow> (string \<times> string) list \<Rightarrow> bool" where
  "accepted r cmds = list_all (\<lambda>(k, d). reject r k d = None) cmds"

text \<open>A spool file that holds the record and nothing else, beside a given sink.\<close>

definition spooled_world :: "redis \<Rightarrow> world" where
  "spooled_world r = (example_world 10 r)\<lparr>files := [(spool_name, example_line @ [CHR 0x0A])]\<rparr>"



text \<open>A spool file whose first line holds the long record and whose second line does not parse.\<close>

definition long_world :: world where
  "long_world =
     (example_world 10 healthy_sink)
       \<lparr>files := [(spool_name, long_line @ [CHR 0x0A] @ ''not json'' @ [CHR 0x0A])]\<rparr>"

text \<open>
  A spool file with one line that does not parse and one line that holds the empty object.
\<close>

definition bare_world :: world where
  "bare_world =
     (example_world 10 healthy_sink)
       \<lparr>files := [(spool_name, ''not json'' @ [CHR 0x0A] @ ''{}'' @ [CHR 0x0A])]\<rparr>"

text \<open>Three entries, and the stalled state with a queue of two slots that holds the first two.\<close>

definition entry1 :: logEntry where
  "entry1 = \<lparr>level = ''info'', message = ''m1'', efields = GNil\<rparr>"

definition entry2 :: logEntry where
  "entry2 = \<lparr>level = ''warn'', message = ''m2'', efields = GNil\<rparr>"

definition entry3 :: logEntry where
  "entry3 = \<lparr>level = ''error'', message = ''m3'', efields = GNil\<rparr>"

definition full_world :: world where
  "full_world =
     (stalled_world 2 healthy_sink)\<lparr>logQueue := \<lparr>buf = [entry1, entry2], cap = 2, closed = False,
                                                   recvq = False, handed = None\<rparr>\<rparr>"

section \<open>The ingestion queue\<close>

lemma enqueue_all_append:
  "enqueue_all w (xs @ ys) =
     (case enqueue_all w xs of Inl a \<Rightarrow> Inl a | Inr w' \<Rightarrow> enqueue_all w' ys)"
  by (induction xs arbitrary: w) (auto split: sum.splits)

lemma enqueue_all_room:
  "\<not> closed (logQueue w) \<Longrightarrow> \<not> recvq (logQueue w) \<Longrightarrow>
   length (buf (logQueue w)) + length es \<le> cap (logQueue w) \<Longrightarrow>
   enqueue_all w es = Inr (w\<lparr>logQueue := (logQueue w)\<lparr>buf := buf (logQueue w) @ es\<rparr>\<rparr>)"
proof (induction es arbitrary: w)
  case Nil
  then show ?case by simp
next
  case (Cons e es)
  let ?w' = "w\<lparr>logQueue := (logQueue w)\<lparr>buf := buf (logQueue w) @ [e]\<rparr>\<rparr>"
  from Cons.prems have step: "logAsync w (level e) (message e) (efields e) = Inr ?w'"
    by (simp add: logAsync_def Let_def)
  from Cons.prems have "enqueue_all ?w' es =
      Inr (?w'\<lparr>logQueue := (logQueue ?w')\<lparr>buf := buf (logQueue ?w') @ es\<rparr>\<rparr>)"
    by (intro Cons.IH) simp_all
  with step show ?case by simp
qed

text \<open>
  C3, as the code has it. On an open queue \<open>logAsync\<close> always returns. When the dispatcher is
  blocked in receive, the entry is passed to it directly, whatever the capacity, and nothing
  is logged. Otherwise, when the buffer holds fewer entries than its capacity, the entry is
  appended behind the entries already queued; and when the buffer is at capacity, the queue
  is left as it is and one warning record is added to the logger, carrying the level and the
  message of the dropped entry. With a capacity of at least one, a buffer at capacity is not
  empty, so the dispatcher is not blocked and the entry is dropped. In both cases in which
  the entry is taken it becomes the last of the entries the dispatcher will process. From an
  empty queue of capacity \<open>N\<close> with a stalled dispatcher, \<open>N + 1\<close> calls all return: the
  first \<open>N\<close> entries are queued in order and only the last one is dropped, with its warning.
\<close>

theorem logAsync_overflow_policy:
  assumes "\<not> closed (logQueue w)"
  shows "(recvq (logQueue w) \<longrightarrow>
            logAsync w lvl msg flds =
              Inr (w\<lparr>logQueue := (logQueue w)\<lparr>recvq := False,
                     handed := Some \<lparr>level = lvl, message = msg, efields = flds\<rparr>\<rparr>\<rparr>))
       \<and> (\<not> recvq (logQueue w) \<and> length (buf (logQueue w)) < cap (logQueue w) \<longrightarrow>
            logAsync w lvl msg flds =
              Inr (w\<lparr>logQueue := (logQueue w)\<lparr>buf := buf (logQueue w) @
                     [\<lparr>level = lvl, message = msg, efields = flds\<rparr>]\<rparr>\<rparr>))
       \<and> (\<not> recvq (logQueue w) \<and> length (buf (logQueue w)) = cap (logQueue w) \<longrightarrow>
            logAsync w lvl msg flds =
              Inr (zap w ZWarn ''Log queue is full, dropping log''
                     [ZString ''level'' lvl, ZString ''message'' msg]))
       \<and> ((recvq (logQueue w) \<longrightarrow> buf (logQueue w) = []) \<and> 0 < cap (logQueue w)
            \<and> length (buf (logQueue w)) = cap (logQueue w) \<longrightarrow>
            logAsync w lvl msg flds =
              Inr (zap w ZWarn ''Log queue is full, dropping log''
                     [ZString ''level'' lvl, ZString ''message'' msg]))
       \<and> ((recvq (logQueue w) \<longrightarrow> buf (logQueue w) = [] \<and> handed (logQueue w) = None)
            \<and> (recvq (logQueue w) \<or> length (buf (logQueue w)) < cap (logQueue w)) \<longrightarrow>
            (\<exists>w'. logAsync w lvl msg flds = Inr w'
               \<and> pending (logQueue w') =
                   pending (logQueue w) @ [\<lparr>level = lvl, message = msg, efields = flds\<rparr>]))
       \<and> (\<not> recvq (logQueue w) \<and> buf (logQueue w) = [] \<and> length es = cap (logQueue w) \<longrightarrow>
            enqueue_all w (es @ [e]) =
              Inr (zap (w\<lparr>logQueue := (logQueue w)\<lparr>buf := es\<rparr>\<rparr>) ZWarn
                     ''Log queue is full, dropping log''
                     [ZString ''level'' (level e), ZString ''message'' (message e)]))"
proof -
  let ?entry = "\<lparr>level = lvl, message = msg, efields = flds\<rparr>"
  let ?drop = "Inr (zap w ZWarn ''Log queue is full, dropping log''
                     [ZString ''level'' lvl, ZString ''message'' msg])"
  have hand: "logAsync w lvl msg flds =
      Inr (w\<lparr>logQueue := (logQueue w)\<lparr>recvq := False, handed := Some ?entry\<rparr>\<rparr>)"
    if "recvq (logQueue w)"
    using assms that by (simp add: logAsync_def Let_def)
  have room: "logAsync w lvl msg flds =
      Inr (w\<lparr>logQueue := (logQueue w)\<lparr>buf := buf (logQueue w) @ [?entry]\<rparr>\<rparr>)"
    if "\<not> recvq (logQueue w) \<and> length (buf (logQueue w)) < cap (logQueue w)"
    using assms that by (simp add: logAsync_def Let_def)
  have full: "logAsync w lvl msg flds = ?drop"
    if "\<not> recvq (logQueue w) \<and> length (buf (logQueue w)) = cap (logQueue w)"
    using assms that by (simp add: logAsync_def Let_def)
  have full': "logAsync w lvl msg flds = ?drop"
    if a: "(recvq (logQueue w) \<longrightarrow> buf (logQueue w) = []) \<and> 0 < cap (logQueue w)
            \<and> length (buf (logQueue w)) = cap (logQueue w)"
  proof -
    from a have "\<not> recvq (logQueue w)" by auto
    with a full show ?thesis by blast
  qed
  have fifo: "\<exists>w'. logAsync w lvl msg flds = Inr w'
               \<and> pending (logQueue w') = pending (logQueue w) @ [?entry]"
    if a: "(recvq (logQueue w) \<longrightarrow> buf (logQueue w) = [] \<and> handed (logQueue w) = None)
            \<and> (recvq (logQueue w) \<or> length (buf (logQueue w)) < cap (logQueue w))"
  proof (cases "recvq (logQueue w)")
    case True
    with a have "buf (logQueue w) = []" "handed (logQueue w) = None" by simp_all
    with hand [OF True] show ?thesis by (simp add: pending_def)
  next
    case False
    with a room show ?thesis by (simp add: pending_def)
  qed
  have burst: "enqueue_all w (es @ [e]) =
      Inr (zap (w\<lparr>logQueue := (logQueue w)\<lparr>buf := es\<rparr>\<rparr>) ZWarn
             ''Log queue is full, dropping log''
             [ZString ''level'' (level e), ZString ''message'' (message e)])"
    if a: "\<not> recvq (logQueue w) \<and> buf (logQueue w) = [] \<and> length es = cap (logQueue w)"
  proof -
    let ?w' = "w\<lparr>logQueue := (logQueue w)\<lparr>buf := es\<rparr>\<rparr>"
    from assms a have "enqueue_all w es = Inr ?w'"
      using enqueue_all_room [of w es] by simp
    moreover from assms a have "logAsync ?w' (level e) (message e) (efields e) =
        Inr (zap ?w' ZWarn ''Log queue is full, dropping log''
               [ZString ''level'' (level e), ZString ''message'' (message e)])"
      by (simp add: logAsync_def Let_def)
    ultimately show ?thesis by (simp add: enqueue_all_append)
  qed
  from hand room full full' fifo burst show ?thesis by blast
qed


theorem logAsync_overflow_policy_witness:
  "recvq (logQueue (example_world 0 healthy_sink))
   \<and> logAsync (example_world 0 healthy_sink) ''info'' ''m1'' GNil =
       Inr ((example_world 0 healthy_sink)\<lparr>logQueue := (logQueue (example_world 0 healthy_sink))
              \<lparr>recvq := False,
               handed := Some \<lparr>level = ''info'', message = ''m1'', efields = GNil\<rparr>\<rparr>\<rparr>)
   \<and> (\<exists>w'. logAsync (example_world 0 healthy_sink) ''info'' ''m1'' GNil = Inr w'
         \<and> pending (logQueue w') =
             pending (logQueue (example_world 0 healthy_sink)) @
               [\<lparr>level = ''info'', message = ''m1'', efields = GNil\<rparr>])
   \<and> \<not> recvq (logQueue (stalled_world 2 healthy_sink))
   \<and> length (buf (logQueue (stalled_world 2 healthy_sink))) < cap (logQueue (stalled_world 2 healthy_sink))
   \<and> logAsync (stalled_world 2 healthy_sink) ''info'' ''m1'' GNil =
       Inr ((stalled_world 2 healthy_sink)\<lparr>logQueue := (logQueue (stalled_world 2 healthy_sink))
              \<lparr>buf := buf (logQueue (stalled_world 2 healthy_sink)) @
                 [\<lparr>level = ''info'', message = ''m1'', efields = GNil\<rparr>]\<rparr>\<rparr>)
   \<and> length (buf (logQueue (stalled_world 0 healthy_sink))) = cap (logQueue (stalled_world 0 healthy_sink))
   \<and> logAsync (stalled_world 0 healthy_sink) ''info'' ''m1'' GNil =
       Inr (zap (stalled_world 0 healthy_sink) ZWarn ''Log queue is full, dropping log''
              [ZString ''level'' ''info'', ZString ''message'' ''m1''])
   \<and> 0 < cap (logQueue full_world)
   \<and> length (buf (logQueue full_world)) = cap (logQueue full_world)
   \<and> logAsync full_world ''error'' ''m3'' GNil =
       Inr (zap full_world ZWarn ''Log queue is full, dropping log''
              [ZString ''level'' ''error'', ZString ''message'' ''m3''])
   \<and> enqueue_all (stalled_world 2 healthy_sink) ([entry1, entry2] @ [entry3]) =
       Inr (zap ((stalled_world 2 healthy_sink)\<lparr>logQueue := (logQueue (stalled_world 2 healthy_sink))
                   \<lparr>buf := [entry1, entry2]\<rparr>\<rparr>)
              ZWarn ''Log queue is full, dropping log''
              [ZString ''level'' (level entry3), ZString ''message'' (message entry3)])"
proof -
  let ?P = "example_world 0 healthy_sink"
  let ?S2 = "stalled_world 2 healthy_sink"
  let ?S0 = "stalled_world 0 healthy_sink"
  have oP: "\<not> closed (logQueue ?P)" and oS2: "\<not> closed (logQueue ?S2)"
    and oS0: "\<not> closed (logQueue ?S0)" and oF: "\<not> closed (logQueue full_world)"
    by (simp_all add: example_world_def stalled_world_def full_world_def)
  have p1: "recvq (logQueue ?P)" by (simp add: example_world_def)
  have p1': "(recvq (logQueue ?P) \<longrightarrow> buf (logQueue ?P) = [] \<and> handed (logQueue ?P) = None)
      \<and> (recvq (logQueue ?P) \<or> length (buf (logQueue ?P)) < cap (logQueue ?P))"
    by (simp add: example_world_def)
  have p2: "\<not> recvq (logQueue ?S2)" "length (buf (logQueue ?S2)) < cap (logQueue ?S2)"
    by (simp_all add: stalled_world_def)
  have p3: "\<not> recvq (logQueue ?S0)" "length (buf (logQueue ?S0)) = cap (logQueue ?S0)"
    by (simp_all add: stalled_world_def)
  have p4: "(recvq (logQueue full_world) \<longrightarrow> buf (logQueue full_world) = [])"
    "0 < cap (logQueue full_world)"
    "length (buf (logQueue full_world)) = cap (logQueue full_world)"
    by (simp_all add: full_world_def)
  have p5: "\<not> recvq (logQueue ?S2) \<and> buf (logQueue ?S2) = []
      \<and> length [entry1, entry2] = cap (logQueue ?S2)"
    by (simp add: stalled_world_def)
  note a = logAsync_overflow_policy [OF oP, of "''info''" "''m1''" GNil "[]" entry3]
  note b = logAsync_overflow_policy [OF oS2, of "''info''" "''m1''" GNil "[entry1, entry2]" entry3]
  note c = logAsync_overflow_policy [OF oS0, of "''info''" "''m1''" GNil "[]" entry3]
  note d = logAsync_overflow_policy [OF oF, of "''error''" "''m3''" GNil "[]" entry3]
  from a p1 have 1: "logAsync ?P ''info'' ''m1'' GNil =
       Inr (?P\<lparr>logQueue := (logQueue ?P)
              \<lparr>recvq := False,
               handed := Some \<lparr>level = ''info'', message = ''m1'', efields = GNil\<rparr>\<rparr>\<rparr>)"
    by blast
  from a p1' have 2: "\<exists>w'. logAsync ?P ''info'' ''m1'' GNil = Inr w'
         \<and> pending (logQueue w') =
             pending (logQueue ?P) @ [\<lparr>level = ''info'', message = ''m1'', efields = GNil\<rparr>]"
    by blast
  from b p2 have 3: "logAsync ?S2 ''info'' ''m1'' GNil =
       Inr (?S2\<lparr>logQueue := (logQueue ?S2)
              \<lparr>buf := buf (logQueue ?S2) @
                 [\<lparr>level = ''info'', message = ''m1'', efields = GNil\<rparr>]\<rparr>\<rparr>)"
    by blast
  from c p3 have 4: "logAsync ?S0 ''info'' ''m1'' GNil =
       Inr (zap ?S0 ZWarn ''Log queue is full, dropping log''
              [ZString ''level'' ''info'', ZString ''message'' ''m1''])"
    by blast
  from d p4 have 5: "logAsync full_world ''error'' ''m3'' GNil =
       Inr (zap full_world ZWarn ''Log queue is full, dropping log''
              [ZString ''level'' ''error'', ZString ''message'' ''m3''])"
    by blast
  from b p5 have 6: "enqueue_all ?S2 ([entry1, entry2] @ [entry3]) =
       Inr (zap (?S2\<lparr>logQueue := (logQueue ?S2)\<lparr>buf := [entry1, entry2]\<rparr>\<rparr>)
              ZWarn ''Log queue is full, dropping log''
              [ZString ''level'' (level entry3), ZString ''message'' (message entry3)])"
    by blast
  from p1 1 2 p2 3 p3(2) 4 p4(2,3) 5 6 show ?thesis by blast
qed

text \<open>
  The claim's second case without the condition on the dispatcher fails. After
  \<^verbatim>\<open>NewLogger(0)\<close> the queue is open and holds as many entries as its capacity, none;
  the dispatcher is blocked in receive, so \<^verbatim>\<open>Info("m1", nil)\<close> passes the entry to it:
  the entry is not dropped and the logger gets no warning.
\<close>

theorem logAsync_overflow_policy_counterexample:
  "\<not> closed (logQueue (example_world 0 healthy_sink))
   \<and> length (buf (logQueue (example_world 0 healthy_sink))) = cap (logQueue (example_world 0 healthy_sink))
   \<and> (\<exists>w'. Info (example_world 0 healthy_sink) ''m1'' GNil = Inr w'
         \<and> pending (logQueue w') = [\<lparr>level = ''info'', message = ''m1'', efields = GNil\<rparr>]
         \<and> zlog w' = [])
   \<and> Info (example_world 0 healthy_sink) ''m1'' GNil \<noteq>
       Inr (zap (example_world 0 healthy_sink) ZWarn ''Log queue is full, dropping log''
              [ZString ''level'' ''info'', ZString ''message'' ''m1''])"
  by (simp add: Info_def logAsync_def Let_def example_world_def pending_def zap_def)

text \<open>
  C4, as the code has it. \<open>StopLogger\<close> closes the channel, and a \<open>logAsync\<close> on a closed
  channel panics in the producer (send on closed channel) and leaves the state as it was:
  the call is neither a no-op nor a logged error. On a channel that is still open
  \<open>logAsync\<close> always returns.
\<close>

theorem logAsync_after_close:
  "(StopLogger w = Inr w' \<longrightarrow> closed (logQueue w'))
   \<and> (closed (logQueue w) \<longrightarrow> logAsync w lvl msg flds = Inl (Panic SendOnClosedChannel, w))
   \<and> (\<not> closed (logQueue w) \<longrightarrow> (\<exists>w''. logAsync w lvl msg flds = Inr w''))"
proof (intro conjI impI)
  assume "StopLogger w = Inr w'"
  then have "\<not> closed (logQueue w)"
    and "w' = zap (w\<lparr>logQueue := (logQueue w)\<lparr>closed := True, recvq := False\<rparr>\<rparr>) ZInfo
                ''Logger stopped gracefully'' []"
    by (auto simp: StopLogger_def Let_def split: if_splits)
  then show "closed (logQueue w')" by (simp add: zap_def)
next
  assume "closed (logQueue w)"
  then show "logAsync w lvl msg flds = Inl (Panic SendOnClosedChannel, w)"
    by (simp add: logAsync_def Let_def)
next
  assume o: "\<not> closed (logQueue w)"
  show "\<exists>w''. logAsync w lvl msg flds = Inr w''"
  proof (cases "recvq (logQueue w)")
    case True
    with o show ?thesis by (simp add: logAsync_def Let_def)
  next
    case False
    show ?thesis
    proof (cases "length (buf (logQueue w)) < cap (logQueue w)")
      case True
      with o False show ?thesis by (simp add: logAsync_def Let_def)
    next
      case nr: False
      with o False show ?thesis by (simp add: logAsync_def Let_def)
    qed
  qed
qed

theorem logAsync_after_close_witness:
  "StopLogger (example_world 10 healthy_sink) = Inr stopped_world
   \<and> closed (logQueue stopped_world)
   \<and> logAsync stopped_world ''info'' ''late'' GNil = Inl (Panic SendOnClosedChannel, stopped_world)
   \<and> \<not> closed (logQueue (example_world 10 healthy_sink))
   \<and> (\<exists>w''. logAsync (example_world 10 healthy_sink) ''info'' ''early'' GNil = Inr w'')"
proof -
  have s: "StopLogger (example_world 10 healthy_sink) = Inr stopped_world"
    by (simp add: StopLogger_def stopped_world_def example_world_def Let_def)
  have o: "\<not> closed (logQueue (example_world 10 healthy_sink))"
    by (simp add: example_world_def)
  from s logAsync_after_close [of "example_world 10 healthy_sink" stopped_world]
  have c: "closed (logQueue stopped_world)" by blast
  from c logAsync_after_close [of stopped_world stopped_world "''info''" "''late''" GNil]
  have p: "logAsync stopped_world ''info'' ''late'' GNil = Inl (Panic SendOnClosedChannel, stopped_world)"
    by blast
  from o logAsync_after_close [of "example_world 10 healthy_sink" stopped_world "''info''" "''early''" GNil]
  have r: "\<exists>w''. logAsync (example_world 10 healthy_sink) ''info'' ''early'' GNil = Inr w''"
    by blast
  from s c p o r show ?thesis by blast
qed

text \<open>
  The claim as the specification has it (a call after the close returns, as a no-op or with a
  logged error) fails: after \<^verbatim>\<open>NewLogger(10)\<close> and \<^verbatim>\<open>StopLogger()\<close>,
  \<^verbatim>\<open>Info("late", nil)\<close> panics.
\<close>

theorem logAsync_after_close_counterexample:
  "StopLogger (example_world 10 healthy_sink) = Inr stopped_world
   \<and> Info stopped_world ''late'' GNil = Inl (Panic SendOnClosedChannel, stopped_world)
   \<and> \<not> (\<exists>w''. Info stopped_world ''late'' GNil = Inr w'')"
  by (simp add: StopLogger_def stopped_world_def example_world_def Let_def Info_def
      logAsync_def zap_def)

section \<open>The dispatcher\<close>

text \<open>
  C1. The scenario run on the code: queue size 10, \<^verbatim>\<open>Info("a", {"k":"v1"})\<close>,
  \<^verbatim>\<open>Warn("b", {"k":"v2"})\<close>, \<^verbatim>\<open>Error("c", {"k":"v3"})\<close>, a sink that
  accepts every command, then the dispatcher receives the three entries. The list at the key
  the code computes has length 3, and it holds the entries in the reverse of the order of the
  calls, because LPUSH inserts at the head: its first entry is the record of level
  \<^verbatim>\<open>error\<close> and message \<^verbatim>\<open>c\<close>, and the record of level
  \<^verbatim>\<open>info\<close> and message \<^verbatim>\<open>a\<close> is its last.
\<close>

theorem scenario_sink_list:
  \<open>\<exists>w r. scenario = Inr w \<and> rdb w = Some r
     \<and> length (lists r (applogs_key ''F1'' ''api'' ''svc'' ''i-1'')) = 3
     \<and> lists r (applogs_key ''F1'' ''api'' ''svc'' ''i-1'') =
        [''{"facility_id":"F1","instance_id":"i-1","instance_type":"api","level":"error","message":"c","metadata":{"k":"v3"},"service_name":"svc","timestamp":"2024-05-01T10:00:00Z"}'',
         ''{"facility_id":"F1","instance_id":"i-1","instance_type":"api","level":"warn","message":"b","metadata":{"k":"v2"},"service_name":"svc","timestamp":"2024-05-01T10:00:00Z"}'',
         ''{"facility_id":"F1","instance_id":"i-1","instance_type":"api","level":"info","message":"a","metadata":{"k":"v1"},"service_name":"svc","timestamp":"2024-05-01T10:00:00Z"}'']\<close>
  by (simp add: scenario_def and_then_def Info_def Warn_def Error_def logAsync_def Let_def
      example_world_def healthy_sink_def processLogs_def pending_def process_entry_def LogToRedis_def
      logData_of_def example_json_def json_quote_def applogs_key_def LPush_def zap_def)

section \<open>The routing key\<close>

lemma assert_string_Some: "assert_string v = Some s \<longleftrightarrow> v = Some (GStr s)"
  by (cases v) (auto simp: assert_string_def split: goval.splits)

lemma batch_key_own: "batch_key logData = Some key \<longleftrightarrow> own_key logData key"
proof
  assume a: "batch_key logData = Some key"
  then obtain f where f: "assert_string (map_of logData ''facility_id'') = Some f"
    unfolding batch_key_def by (cases "assert_string (map_of logData ''facility_id'')") simp_all
  with a obtain t where t: "assert_string (map_of logData ''instance_type'') = Some t"
    unfolding batch_key_def by (cases "assert_string (map_of logData ''instance_type'')") simp_all
  with a f obtain s where s: "assert_string (map_of logData ''service_name'') = Some s"
    unfolding batch_key_def by (cases "assert_string (map_of logData ''service_name'')") simp_all
  with a f t obtain i where i: "assert_string (map_of logData ''instance_id'') = Some i"
    unfolding batch_key_def by (cases "assert_string (map_of logData ''instance_id'')") simp_all
  from a f t s i have "key = applogs_key f t s i"
    unfolding batch_key_def by simp
  then have "key = ''applogs:'' @ f @ '':'' @ t @ '':'' @ s @ '':'' @ i"
    unfolding applogs_key_def .
  with f t s i show "own_key logData key"
    unfolding own_key_def assert_string_Some by blast
next
  assume "own_key logData key"
  then obtain f t s i where
    "assert_string (map_of logData ''facility_id'') = Some f"
    "assert_string (map_of logData ''instance_type'') = Some t"
    "assert_string (map_of logData ''service_name'') = Some s"
    "assert_string (map_of logData ''instance_id'') = Some i"
    "key = applogs_key f t s i"
    unfolding own_key_def assert_string_Some applogs_key_def by blast
  then show "batch_key logData = Some key"
    unfolding batch_key_def by simp
qed

lemma queue_cmds_keys:
  "queue_cmds js w pipe logs = Inr (w', pipe') \<Longrightarrow>
   \<exists>new. pipe' = pipe @ new \<and>
     (\<forall>(key, data) \<in> set new. \<exists>logData \<in> set logs.
         own_key logData key \<and> Marshal js (GMap logData) = Inr data)"
proof (induction logs arbitrary: w pipe)
  case Nil
  then show ?case by simp
next
  case (Cons logData rest)
  from Cons.prems obtain key where k: "batch_key logData = Some key"
    by (cases "batch_key logData") simp_all
  then have ok: "own_key logData key" by (simp add: batch_key_own)
  show ?case
  proof (cases "Marshal js (GMap logData)")
    case (Inl e)
    with Cons.prems k
    have "queue_cmds js (zap w ZError ''Failed to marshal log data to JSON'' [ZErr e]) pipe rest
            = Inr (w', pipe')" by simp
    from Cons.IH [OF this] obtain new where
      n: "pipe' = pipe @ new"
         "\<forall>(key, data) \<in> set new. \<exists>logData \<in> set rest.
            own_key logData key \<and> Marshal js (GMap logData) = Inr data"
      by blast
    from n(2) have "\<forall>(key, data) \<in> set new. \<exists>logData \<in> set (logData # rest).
            own_key logData key \<and> Marshal js (GMap logData) = Inr data"
      by fastforce
    with n(1) show ?thesis by blast
  next
    case (Inr data)
    with Cons.prems k
    have "queue_cmds js w (pipe @ [(key, data)]) rest = Inr (w', pipe')" by simp
    from Cons.IH [OF this] obtain new where
      n: "pipe' = (pipe @ [(key, data)]) @ new"
         "\<forall>(key, data) \<in> set new. \<exists>logData \<in> set rest.
            own_key logData key \<and> Marshal js (GMap logData) = Inr data"
      by blast
    have "pipe' = pipe @ ((key, data) # new)" using n(1) by simp
    moreover from n(2) have "\<forall>(key, data) \<in> set new. \<exists>logData \<in> set (logData # rest).
            own_key logData key \<and> Marshal js (GMap logData) = Inr data"
      by fastforce
    with ok Inr have "\<forall>(key, data) \<in> set ((key, data) # new). \<exists>logData \<in> set (logData # rest).
            own_key logData key \<and> Marshal js (GMap logData) = Inr data"
      by simp
    ultimately show ?thesis by blast
  qed
qed

lemma rdb_zap: "rdb (zap w l m fs) = rdb w"
  by (simp add: zap_def)

lemma rdb_check_cmds: "rdb (fst (check_cmds w fe cs)) = rdb w"
  by (induction w fe cs rule: check_cmds.induct) (simp_all add: rdb_zap)

lemma pushBatchToRedis_sink:
  assumes "rdb w = Some r" "pushBatchToRedis js w logs = Inr (w', err)"
  shows "\<exists>w1 pipe. queue_cmds js w [] logs = Inr (w1, pipe) \<and> rdb w' = Some (fst (exec_cmds r pipe))"
proof (cases "queue_cmds js w [] logs")
  case (Inl a)
  with assms show ?thesis by (simp add: pushBatchToRedis_def)
next
  case (Inr p)
  obtain w1 pipe where p: "p = (w1, pipe)" by (cases p)
  obtain r' es where e: "exec_cmds r pipe = (r', es)" by (cases "exec_cmds r pipe")
  have "rdb w' = Some r'"
  proof (cases "first_err es")
    case None
    with assms Inr p e have "check_cmds (w1\<lparr>rdb := Some r'\<rparr>) None (zip pipe es) = (w', err)"
      by (simp add: pushBatchToRedis_def Pipeline_Exec_def)
    then have "w' = fst (check_cmds (w1\<lparr>rdb := Some r'\<rparr>) None (zip pipe es))" by simp
    then show ?thesis by (simp add: rdb_check_cmds)
  next
    case (Some x)
    with assms Inr p e have "w' = zap (w1\<lparr>rdb := Some r'\<rparr>) ZWarn ''Pipeline execution failed'' [ZErr x]"
      by (simp add: pushBatchToRedis_def Pipeline_Exec_def)
    then show ?thesis by (simp add: rdb_zap)
  qed
  with Inr p e show ?thesis by simp
qed

text \<open>
  C2, as the code has it. The key is the four identity fields joined by colons behind the
  prefix \<^verbatim>\<open>applogs:\<close>. The dispatcher appends an entry the sink accepts to the
  list at that key, built from the identity fields of the process, and changes no other list.
  Every command a replayed batch sends to the sink carries one of the batch's records and
  targets the key built from that record's own identity fields.
\<close>

theorem routing_key_applogs_prefix:
  "applogs_key f t s i = ''applogs:'' @ f @ '':'' @ t @ '':'' @ s @ '':'' @ i
   \<and> (rdb w = Some r
      \<and> Marshal js (GMap (logData_of w lvl msg flds)) = Inr data
      \<and> reject r (applogs_key (facilityID w) (instanceType w) (serviceName w) (instanceID w)) data
          = None
    \<longrightarrow> LogToRedis js w lvl msg flds =
          Inr (w\<lparr>rdb := Some (r\<lparr>lists := (lists r)
                 (applogs_key (facilityID w) (instanceType w) (serviceName w) (instanceID w) :=
                  data # lists r
                    (applogs_key (facilityID w) (instanceType w) (serviceName w) (instanceID w)))\<rparr>)\<rparr>))
   \<and> (rdb w = Some r \<and> pushBatchToRedis js w logs = Inr (w', err)
    \<longrightarrow> (\<exists>pipe. rdb w' = Some (fst (exec_cmds r pipe))
          \<and> (\<forall>(key, data) \<in> set pipe. \<exists>logData \<in> set logs.
                own_key logData key \<and> Marshal js (GMap logData) = Inr data)))"
proof (intro conjI impI)
  show "applogs_key f t s i = ''applogs:'' @ f @ '':'' @ t @ '':'' @ s @ '':'' @ i"
    by (simp add: applogs_key_def)
next
  assume "rdb w = Some r
      \<and> Marshal js (GMap (logData_of w lvl msg flds)) = Inr data
      \<and> reject r (applogs_key (facilityID w) (instanceType w) (serviceName w) (instanceID w)) data
          = None"
  then show "LogToRedis js w lvl msg flds =
          Inr (w\<lparr>rdb := Some (r\<lparr>lists := (lists r)
                 (applogs_key (facilityID w) (instanceType w) (serviceName w) (instanceID w) :=
                  data # lists r
                    (applogs_key (facilityID w) (instanceType w) (serviceName w) (instanceID w)))\<rparr>)\<rparr>)"
    by (simp add: LogToRedis_def Let_def LPush_def)
next
  assume a: "rdb w = Some r \<and> pushBatchToRedis js w logs = Inr (w', err)"
  then obtain w1 pipe where
    q: "queue_cmds js w [] logs = Inr (w1, pipe)" "rdb w' = Some (fst (exec_cmds r pipe))"
    using pushBatchToRedis_sink by blast
  from queue_cmds_keys [OF q(1)]
  have "\<forall>(key, data) \<in> set pipe. \<exists>logData \<in> set logs.
          own_key logData key \<and> Marshal js (GMap logData) = Inr data"
    by simp
  with q(2) show "\<exists>pipe. rdb w' = Some (fst (exec_cmds r pipe))
          \<and> (\<forall>(key, data) \<in> set pipe. \<exists>logData \<in> set logs.
                own_key logData key \<and> Marshal js (GMap logData) = Inr data)"
    by blast
qed

text \<open>
  The key is not the bare \<^verbatim>\<open><facility_id>:<instance_type>:<service_name>:<instance_id>\<close>:
  with the identity fields F1, api, svc and i-1 the dispatcher leaves the list at
  \<^verbatim>\<open>F1:api:svc:i-1\<close> empty and writes to \<^verbatim>\<open>applogs:F1:api:svc:i-1\<close>.
\<close>

theorem routing_key_counterexample:
  "applogs_key ''F1'' ''api'' ''svc'' ''i-1'' \<noteq> ''F1:api:svc:i-1''
   \<and> (\<exists>w r. LogToRedis example_json (example_world 10 healthy_sink) ''info'' ''a'' GNil = Inr w
        \<and> rdb w = Some r
        \<and> lists r ''F1:api:svc:i-1'' = []
        \<and> length (lists r ''applogs:F1:api:svc:i-1'') = 1)"
  by (simp add: applogs_key_def LogToRedis_def Let_def LPush_def example_world_def
      healthy_sink_def example_json_def logData_of_def json_quote_def)

lemma example_Marshal_record: "Marshal example_json (GMap example_record) = Inr example_line"
  by (simp add: example_json_def example_line_def example_record_def json_quote_def)

lemma example_batch_key: "batch_key example_record = Some ''applogs:F1:api:svc:i-1''"
  by (simp add: batch_key_def example_record_def assert_string_def applogs_key_def)

lemma example_pushBatch:
  "pushBatchToRedis example_json (example_world 10 healthy_sink) [example_record] =
     Inr ((example_world 10 healthy_sink)\<lparr>rdb := Some replayed_sink\<rparr>, None)"
  by (simp add: pushBatchToRedis_def example_Marshal_record example_batch_key Pipeline_Exec_def
      LPush_def first_err_def replayed_sink_def example_world_def healthy_sink_def)

theorem routing_key_applogs_prefix_witness:
  "applogs_key ''F1'' ''api'' ''svc'' ''i-1'' = ''applogs:F1:api:svc:i-1''
   \<and> (\<exists>data. Marshal example_json (GMap (logData_of (example_world 10 healthy_sink) ''info'' ''a'' GNil))
                = Inr data
        \<and> LogToRedis example_json (example_world 10 healthy_sink) ''info'' ''a'' GNil =
          Inr ((example_world 10 healthy_sink)\<lparr>rdb := Some (healthy_sink\<lparr>lists := (lists healthy_sink)
                 (''applogs:F1:api:svc:i-1'' := data # lists healthy_sink ''applogs:F1:api:svc:i-1'')\<rparr>)\<rparr>))
   \<and> pushBatchToRedis example_json (example_world 10 healthy_sink) [example_record] =
         Inr ((example_world 10 healthy_sink)\<lparr>rdb := Some replayed_sink\<rparr>, None)
   \<and> (\<exists>pipe. Some replayed_sink = Some (fst (exec_cmds healthy_sink pipe))
          \<and> (\<forall>(key, data) \<in> set pipe. \<exists>logData \<in> set [example_record].
                own_key logData key \<and> Marshal example_json (GMap logData) = Inr data))"
proof -
  let ?W = "example_world 10 healthy_sink"
  have k: "applogs_key (facilityID ?W) (instanceType ?W) (serviceName ?W) (instanceID ?W)
             = ''applogs:F1:api:svc:i-1''"
    by (simp add: example_world_def applogs_key_def)
  have r: "rdb ?W = Some healthy_sink" by (simp add: example_world_def)
  obtain data where d: "Marshal example_json (GMap (logData_of ?W ''info'' ''a'' GNil)) = Inr data"
    by (simp add: example_json_def logData_of_def json_quote_def)
  have rj: "reject healthy_sink
      (applogs_key (facilityID ?W) (instanceType ?W) (serviceName ?W) (instanceID ?W)) data = None"
    by (simp add: healthy_sink_def)
  note T = routing_key_applogs_prefix [of "''F1''" "''api''" "''svc''" "''i-1''" ?W healthy_sink
      example_json "''info''" "''a''" GNil data "[example_record]"
      "?W\<lparr>rdb := Some replayed_sink\<rparr>" None]
  from T have 1: "applogs_key ''F1'' ''api'' ''svc'' ''i-1'' = ''applogs:F1:api:svc:i-1''"
    by simp
  from T r d rj have "LogToRedis example_json ?W ''info'' ''a'' GNil =
          Inr (?W\<lparr>rdb := Some (healthy_sink\<lparr>lists := (lists healthy_sink)
                 (applogs_key (facilityID ?W) (instanceType ?W) (serviceName ?W) (instanceID ?W) :=
                  data # lists healthy_sink
                    (applogs_key (facilityID ?W) (instanceType ?W) (serviceName ?W) (instanceID ?W)))\<rparr>)\<rparr>)"
    by blast
  then have 2: "LogToRedis example_json ?W ''info'' ''a'' GNil =
          Inr (?W\<lparr>rdb := Some (healthy_sink\<lparr>lists := (lists healthy_sink)
                 (''applogs:F1:api:svc:i-1'' := data # lists healthy_sink ''applogs:F1:api:svc:i-1'')\<rparr>)\<rparr>)"
    unfolding k .
  from T r example_pushBatch
  have 3: "\<exists>pipe. rdb (?W\<lparr>rdb := Some replayed_sink\<rparr>) = Some (fst (exec_cmds healthy_sink pipe))
          \<and> (\<forall>(key, data) \<in> set pipe. \<exists>logData \<in> set [example_record].
                own_key logData key \<and> Marshal example_json (GMap logData) = Inr data)"
    by blast
  then have 4: "\<exists>pipe. Some replayed_sink = Some (fst (exec_cmds healthy_sink pipe))
          \<and> (\<forall>(key, data) \<in> set pipe. \<exists>logData \<in> set [example_record].
                own_key logData key \<and> Marshal example_json (GMap logData) = Inr data)"
    by simp
  from 1 d 2 example_pushBatch 4 show ?thesis by blast
qed

section \<open>Failure of the remote write and of the fallback write\<close>









text \<open>
  C9 on the code. With the sink refusing connections and a fallback file that can be opened
  but not written, the dispatcher's call returns with one record in the logger, the warning
  that the sink is unavailable: the failed write is not logged, and the file, created by the
  open, is empty. With a fallback file that cannot be opened, the failure is logged as an
  error and no file is created. In both cases the call returns normally and the entry is lost.
\<close>

theorem fallback_write_failure_not_logged:
  "LogToRedis example_json disk_full_world ''info'' ''f'' GNil =
     Inr (disk_full_world
           \<lparr>zlog := [\<lparr>zlevel = ZWarn, zmsg = ''Redis unavailable, saving to fallback'',
                       zfields = [ZErr (ErrMsg
                         ''dial tcp 127.0.0.1:6379: connect: connection refused'')]\<rparr>],
            files := [(''fallback_20240501100000.log'', [])]\<rparr>)
   \<and> LogToRedis example_json no_open_world ''info'' ''f'' GNil =
     Inr (no_open_world
           \<lparr>zlog := [\<lparr>zlevel = ZWarn, zmsg = ''Redis unavailable, saving to fallback'',
                       zfields = [ZErr (ErrMsg
                         ''dial tcp 127.0.0.1:6379: connect: connection refused'')]\<rparr>,
                     \<lparr>zlevel = ZError, zmsg = ''Failed to open fallback log file'',
                       zfields = [ZErr (ErrMsg ''open: permission denied'')]\<rparr>]\<rparr>)"
  by (simp add: LogToRedis_def Let_def LPush_def disk_full_world_def no_open_world_def
      example_world_def down_sink_def example_json_def logData_of_def json_quote_def
      isRedisUnavailable_def logToFallback_def zap_def fallback_name_def os_create_def
      applogs_key_def)

section \<open>The recovery scanner: which files a cycle touches\<close>

lemma Ext_corrupt: "filepath_Ext (name @ ''.corrupt'') = ''.corrupt''"
  by (simp add: filepath_Ext_def)

lemma not_fallback_corrupt: "\<not> is_fallback_file (name @ ''.corrupt'')"
  by (simp add: is_fallback_file_def Ext_corrupt)

lemma files_zap: "files (zap w l m fs) = files w"
  by (simp add: zap_def)

lemma files_scan_loop: "files (fst (scan_loop js fp w b c ls)) = files w"
  by (induction ls arbitrary: w b c) (auto simp: files_zap split: sum.splits)

lemma files_queue_cmds:
  "(queue_cmds js w pipe logs = Inl (a, w') \<longrightarrow> files w' = files w)
   \<and> (queue_cmds js w pipe logs = Inr (w', p) \<longrightarrow> files w' = files w)"
proof (induction logs arbitrary: w pipe)
  case Nil
  then show ?case by simp
next
  case (Cons logData rest)
  show ?case
  proof (cases "batch_key logData")
    case None
    then show ?thesis by auto
  next
    case (Some key)
    show ?thesis
    proof (cases "Marshal js (GMap logData)")
      case (Inl e)
      with Some Cons.IH [of "zap w ZError ''Failed to marshal log data to JSON'' [ZErr e]" pipe]
      show ?thesis by (simp add: files_zap)
    next
      case (Inr data)
      with Some Cons.IH [of w "pipe @ [(key, data)]"] show ?thesis by simp
    qed
  qed
qed

lemma files_check_cmds: "files (fst (check_cmds w fe cs)) = files w"
  by (induction w fe cs rule: check_cmds.induct) (simp_all add: files_zap)

lemma files_pushBatchToRedis:
  "(pushBatchToRedis js w logs = Inl (a, w') \<longrightarrow> files w' = files w)
   \<and> (pushBatchToRedis js w logs = Inr (w', e) \<longrightarrow> files w' = files w)"
proof (cases "rdb w")
  case None
  then show ?thesis by (simp add: pushBatchToRedis_def)
next
  case (Some r)
  show ?thesis
  proof (cases "queue_cmds js w [] logs")
    case (Inl b)
    obtain a1 w1 where b: "b = (a1, w1)" by (cases b)
    with Inl files_queue_cmds [of js w "[]" logs a1 w1] have "files w1 = files w" by simp
    with Some Inl b show ?thesis by (auto simp: pushBatchToRedis_def)
  next
    case (Inr p)
    obtain w1 pipe where p: "p = (w1, pipe)" by (cases p)
    with Inr files_queue_cmds [of js w "[]" logs _ w1 pipe] have f1: "files w1 = files w"
      by simp
    obtain r' es fe where e: "Pipeline_Exec r pipe = (r', es, fe)"
      by (cases "Pipeline_Exec r pipe")
    show ?thesis
    proof (cases fe)
      case None
      from files_check_cmds [of "w1\<lparr>rdb := Some r'\<rparr>" None "zip pipe es"] f1
      have "files (fst (check_cmds (w1\<lparr>rdb := Some r'\<rparr>) None (zip pipe es))) = files w" by simp
      with \<open>rdb w = Some r\<close> Inr p e None show ?thesis
        by (auto simp: pushBatchToRedis_def)
    next
      case (Some err)
      with \<open>rdb w = Some r\<close> Inr p e f1 show ?thesis
        by (auto simp: pushBatchToRedis_def files_zap)
    qed
  qed
qed

lemma files_push_step:
  "(push_step js fp w batch = Inl (a, w') \<longrightarrow> files w' = files w)
   \<and> (push_step js fp w batch = Inr (w', f) \<longrightarrow> files w' = files w)"
proof (cases "pushBatchToRedis js w batch")
  case (Inl b)
  obtain a1 w1 where "b = (a1, w1)" by (cases b)
  with Inl files_pushBatchToRedis [of js w batch a1 w1] show ?thesis
    by (auto simp: push_step_def)
next
  case (Inr p)
  obtain w1 e where p: "p = (w1, e)" by (cases p)
  with Inr files_pushBatchToRedis [of js w batch _ w1 e] have "files w1 = files w" by simp
  with Inr p show ?thesis
    by (cases e) (auto simp: push_step_def files_zap)
qed

lemma recover_file_files:
  "files (world_of (recover_file js w name)) = files w
   \<or> files (world_of (recover_file js w name)) = os_rename (files w) name (name @ ''.corrupt'')
   \<or> files (world_of (recover_file js w name)) = os_remove (files w) name"
proof (cases "os_open w name")
  case (Inl e)
  then show ?thesis by (simp add: recover_file_def world_of_def files_zap)
next
  case (Inr content)
  obtain ls tl where sc: "Scanner_lines content = (ls, tl)" by (cases "Scanner_lines content")
  let ?fp = "filepath_Join (fallbackPath w) name"
  obtain w1 batch corrupt where sl: "scan_loop js ?fp w [] False ls = (w1, batch, corrupt)"
    by (cases "scan_loop js ?fp w [] False ls")
  from files_scan_loop [of js ?fp w "[]" False ls] sl have f1: "files w1 = files w" by simp
  show ?thesis
  proof (cases "push_step js ?fp w1 batch")
    case (Inl b)
    obtain a1 w2 where b: "b = (a1, w2)" by (cases b)
    with Inl files_push_step [of js ?fp w1 batch a1 w2] f1 have "files w2 = files w" by simp
    with Inr sc sl Inl b show ?thesis by (simp add: recover_file_def world_of_def)
  next
    case (Inr p)
    obtain w2 failed where p: "p = (w2, failed)" by (cases p)
    with Inr files_push_step [of js ?fp w1 batch _ w2 failed] f1 have f2: "files w2 = files w"
      by simp
    let ?w3 = "if tl then zap w2 ZError ''Error reading fallback log line by line'' [ZErr ErrTooLong]
               else w2"
    have f3: "files ?w3 = files w" using f2 by (simp add: files_zap)
    have "recover_file js w name = Inr (dispose ?w3 name corrupt failed)"
      using \<open>os_open w name = Inr content\<close> sc sl Inr p by (simp add: recover_file_def)
    then have "files (world_of (recover_file js w name)) = files (dispose ?w3 name corrupt failed)"
      by (simp add: world_of_def)
    also have "files (dispose ?w3 name corrupt failed) =
        (if corrupt then os_rename (files w) name (name @ ''.corrupt'')
         else if \<not> failed then os_remove (files w) name else files w)"
      unfolding dispose_def using f3 by (simp split: if_splits)
    finally show ?thesis by (auto split: if_splits)
  qed
qed

lemma map_of_os_rename_other:
  "x \<noteq> old \<Longrightarrow> x \<noteq> new \<Longrightarrow> map_of (os_rename fs old new) x = map_of fs x"
  by (simp add: os_rename_def update_conv' delete_conv' split: option.splits)

lemma map_of_os_remove_other: "x \<noteq> name \<Longrightarrow> map_of (os_remove fs name) x = map_of fs x"
  by (simp add: os_remove_def delete_conv')

lemma dom_os_rename_other:
  "x \<noteq> old \<Longrightarrow> map_of fs x = Some y \<Longrightarrow> \<exists>z. map_of (os_rename fs old new) x = Some z"
  by (simp add: os_rename_def update_conv' delete_conv' split: option.splits)

lemma recover_file_keeps_other:
  assumes "x \<noteq> name"
  shows "(map_of (files w) x \<noteq> None \<longrightarrow> map_of (files (world_of (recover_file js w name))) x \<noteq> None)
       \<and> (x \<noteq> name @ ''.corrupt'' \<longrightarrow>
            map_of (files (world_of (recover_file js w name))) x = map_of (files w) x)"
proof -
  let ?f' = "files (world_of (recover_file js w name))"
  from recover_file_files [of js w name]
  consider (same) "?f' = files w"
    | (ren) "?f' = os_rename (files w) name (name @ ''.corrupt'')"
    | (rem) "?f' = os_remove (files w) name"
    by blast
  then show ?thesis
  proof cases
    case same
    then show ?thesis by simp
  next
    case ren
    have "map_of (files w) x \<noteq> None \<longrightarrow> map_of ?f' x \<noteq> None"
      using dom_os_rename_other [OF assms, of "files w" _ "name @ ''.corrupt''"] ren by auto
    moreover have "x \<noteq> name @ ''.corrupt'' \<longrightarrow> map_of ?f' x = map_of (files w) x"
      using map_of_os_rename_other [OF assms, of "name @ ''.corrupt''" "files w"] ren by simp
    ultimately show ?thesis by blast
  next
    case rem
    then show ?thesis using assms by (simp add: map_of_os_remove_other)
  qed
qed

lemma scan_files_keeps:
  assumes "\<not> is_fallback_file x"
  shows "(map_of (files w) x \<noteq> None \<longrightarrow>
            map_of (files (world_of (scan_files js w names))) x \<noteq> None)
       \<and> ((\<forall>m \<in> set names. x \<noteq> m @ ''.corrupt'') \<longrightarrow>
            map_of (files (world_of (scan_files js w names))) x = map_of (files w) x)"
proof (induction names arbitrary: w)
  case Nil
  then show ?case by (simp add: world_of_def)
next
  case (Cons n ns)
  show ?case
  proof (cases "is_fallback_file n")
    case False
    with Cons.IH [of w] show ?thesis by simp
  next
    case True
    with assms have xn: "x \<noteq> n" by auto
    note k = recover_file_keeps_other [OF xn, of w js]
    show ?thesis
    proof (cases "recover_file js w n")
      case (Inl a)
      with True have "scan_files js w (n # ns) = recover_file js w n" by simp
      with k show ?thesis by simp
    next
      case (Inr w')
      with True have s: "scan_files js w (n # ns) = scan_files js w' ns" by simp
      from Inr have w': "world_of (recover_file js w n) = w'" by (simp add: world_of_def)
      from k w' Cons.IH [of w'] s show ?thesis by simp
    qed
  qed
qed

lemma files_recoverFallbackLogs_early:
  "rdb w = None \<or> readdir_err w \<noteq> None \<Longrightarrow> files (world_of (recoverFallbackLogs js w)) = files w"
  by (auto simp: recoverFallbackLogs_def world_of_def files_zap split: option.splits)

lemma recoverFallbackLogs_keeps:
  assumes "\<not> is_fallback_file x"
  shows "(map_of (files w) x \<noteq> None \<longrightarrow>
            map_of (files (world_of (recoverFallbackLogs js w))) x \<noteq> None)
       \<and> ((\<forall>m \<in> fst ` set (files w). x \<noteq> m @ ''.corrupt'') \<longrightarrow>
            map_of (files (world_of (recoverFallbackLogs js w))) x = map_of (files w) x)"
proof (cases "rdb w = None \<or> readdir_err w \<noteq> None")
  case True
  then show ?thesis by (simp add: files_recoverFallbackLogs_early)
next
  case False
  then have "recoverFallbackLogs js w = scan_files js w (os_ReadDir (files w))"
    by (auto simp: recoverFallbackLogs_def)
  moreover have "set (os_ReadDir (files w)) = fst ` set (files w)"
    by (simp add: os_ReadDir_def)
  ultimately show ?thesis
    using scan_files_keeps [OF assms, of w js "os_ReadDir (files w)"] by simp
qed

text \<open>
  C8. A name that ends in the corruption suffix does not pass the test of the scanner's loop
  (extension \<^verbatim>\<open>.log\<close> and prefix \<^verbatim>\<open>fallback_\<close>), whatever it is the suffix of;
  the loop steps over every entry that does not pass the test; and a quarantined file that is
  in the directory before a cycle is still there after it, however the cycle ends, with its
  content unchanged when the directory holds no file of the name it had before the quarantine.
\<close>

theorem quarantined_file_left_alone:
  "\<not> is_fallback_file (name @ ''.corrupt'')
   \<and> (is_fallback_file n \<longleftrightarrow> filepath_Ext n = ''.log'' \<and> prefix ''fallback_'' n)
   \<and> (\<not> is_fallback_file n \<longrightarrow> scan_files js w (n # names) = scan_files js w names)
   \<and> (map_of (files w) (name @ ''.corrupt'') \<noteq> None \<longrightarrow>
        map_of (files (world_of (recoverFallbackLogs js w))) (name @ ''.corrupt'') \<noteq> None)
   \<and> (map_of (files w) name = None \<longrightarrow>
        map_of (files (world_of (recoverFallbackLogs js w))) (name @ ''.corrupt'') =
          map_of (files w) (name @ ''.corrupt''))"
proof (intro conjI impI)
  show "\<not> is_fallback_file (name @ ''.corrupt'')" by (rule not_fallback_corrupt)
  show "is_fallback_file n \<longleftrightarrow> filepath_Ext n = ''.log'' \<and> prefix ''fallback_'' n"
    by (simp add: is_fallback_file_def strings_HasPrefix_def)
  show "scan_files js w (n # names) = scan_files js w names" if "\<not> is_fallback_file n"
    using that by simp
  show "map_of (files (world_of (recoverFallbackLogs js w))) (name @ ''.corrupt'') \<noteq> None"
    if "map_of (files w) (name @ ''.corrupt'') \<noteq> None"
    using that recoverFallbackLogs_keeps [OF not_fallback_corrupt, of w name js] by blast
  show "map_of (files (world_of (recoverFallbackLogs js w))) (name @ ''.corrupt'') =
          map_of (files w) (name @ ''.corrupt'')"
    if "map_of (files w) name = None"
  proof -
    from that have "name \<notin> fst ` set (files w)" by (simp add: map_of_eq_None_iff)
    then have "\<forall>m \<in> fst ` set (files w). name @ ''.corrupt'' \<noteq> m @ ''.corrupt''" by auto
    with recoverFallbackLogs_keeps [OF not_fallback_corrupt, of w name js] show ?thesis by blast
  qed
qed

theorem quarantined_file_left_alone_witness:
  "\<not> is_fallback_file (spool_name @ ''.corrupt'')
   \<and> is_fallback_file spool_name
   \<and> scan_files example_json quarantined_world [spool_name @ ''.corrupt''] =
       scan_files example_json quarantined_world []
   \<and> map_of (files quarantined_world) (spool_name @ ''.corrupt'') \<noteq> None
   \<and> map_of (files (world_of (recoverFallbackLogs example_json quarantined_world)))
         (spool_name @ ''.corrupt'') \<noteq> None
   \<and> map_of (files quarantined_world) spool_name = None
   \<and> map_of (files (world_of (recoverFallbackLogs example_json quarantined_world)))
         (spool_name @ ''.corrupt'') =
       map_of (files quarantined_world) (spool_name @ ''.corrupt'')"
proof -
  note T = quarantined_file_left_alone [of spool_name spool_name example_json quarantined_world "[]"]
  note T' = quarantined_file_left_alone [of spool_name "spool_name @ ''.corrupt''" example_json
      quarantined_world "[]"]
  have e: "filepath_Ext spool_name = ''.log'' \<and> prefix ''fallback_'' spool_name"
    by (simp add: spool_name_def filepath_Ext_def)
  have p: "map_of (files quarantined_world) (spool_name @ ''.corrupt'') \<noteq> None"
    by (simp add: quarantined_world_def)
  have a: "map_of (files quarantined_world) spool_name = None"
    by (simp add: quarantined_world_def)
  from T e have 1: "is_fallback_file spool_name" by blast
  from T have 0: "\<not> is_fallback_file (spool_name @ ''.corrupt'')" by blast
  from T' 0 have 2: "scan_files example_json quarantined_world [spool_name @ ''.corrupt''] =
       scan_files example_json quarantined_world []" by blast
  from T p have 3: "map_of (files (world_of (recoverFallbackLogs example_json quarantined_world)))
         (spool_name @ ''.corrupt'') \<noteq> None" by blast
  from T a have 4: "map_of (files (world_of (recoverFallbackLogs example_json quarantined_world)))
         (spool_name @ ''.corrupt'') =
       map_of (files quarantined_world) (spool_name @ ''.corrupt'')" by blast
  from 0 1 2 p 3 a 4 show ?thesis by blast
qed

section \<open>The recovery scanner: what becomes of a file\<close>

lemma scan_loop_snd:
  "snd (scan_loop js fp w b c ls) = (b @ records_of js ls, c \<or> has_bad_line js ls)"
  by (induction ls arbitrary: w b c)
     (auto simp: records_of_def has_bad_line_def split: sum.splits)

lemma rdb_scan_loop: "rdb (fst (scan_loop js fp w b c ls)) = rdb w"
  by (induction ls arbitrary: w b c) (auto simp: rdb_zap split: sum.splits)

lemma queue_cmds_ok:
  "\<forall>l \<in> set logs. batch_key l \<noteq> None \<Longrightarrow>
   \<exists>w'. queue_cmds js w pipe logs = Inr (w', pipe @ batch_cmds js logs) \<and> rdb w' = rdb w"
proof (induction logs arbitrary: w pipe)
  case Nil
  then show ?case by (simp add: batch_cmds_def)
next
  case (Cons l rest)
  then obtain k where k: "batch_key l = Some k" by auto
  from Cons.prems have rest: "\<forall>l \<in> set rest. batch_key l \<noteq> None" by simp
  show ?case
  proof (cases "Marshal js (GMap l)")
    case (Inl e)
    from Cons.IH [OF rest, of "zap w ZError ''Failed to marshal log data to JSON'' [ZErr e]" pipe]
    show ?thesis using k Inl by (simp add: batch_cmds_def rdb_zap)
  next
    case (Inr d)
    from Cons.IH [OF rest, of w "pipe @ [(k, d)]"]
    show ?thesis using k Inr by (simp add: batch_cmds_def)
  qed
qed

lemma reject_LPush: "reject (fst (LPush r k d)) = reject r"
  by (simp add: LPush_def split: option.splits)

lemma exec_cmds_errs:
  "snd (exec_cmds r cmds) = map (\<lambda>(k, d). reject r k d) cmds"
proof (induction cmds arbitrary: r)
  case Nil
  then show ?case by simp
next
  case (Cons c cs)
  obtain k d where c: "c = (k, d)" by (cases c)
  obtain r' e where l: "LPush r k d = (r', e)" by (cases "LPush r k d")
  then have e: "e = reject r k d" by (auto simp: LPush_def split: option.splits)
  from l reject_LPush [of r k d] have rr: "reject r' = reject r" by simp
  obtain r'' es where x: "exec_cmds r' cs = (r'', es)" by (cases "exec_cmds r' cs")
  with Cons.IH [of r'] rr have "es = map (\<lambda>(k, d). reject r k d) cs" by simp
  with c l e x show ?case by simp
qed

lemma first_err_None: "first_err es = None \<longleftrightarrow> (\<forall>e \<in> set es. e = None)"
proof (induction es)
  case Nil
  then show ?case by (simp add: first_err_def)
next
  case (Cons e es)
  then show ?case by (cases e) (auto simp: first_err_def split: list.splits)
qed

lemma check_cmds_all_None:
  "\<forall>e \<in> set es. e = None \<Longrightarrow> check_cmds w fe (zip pipe es) = (w, fe)"
proof (induction es arbitrary: pipe)
  case Nil
  then show ?case by simp
next
  case (Cons e es)
  then show ?case
  proof (cases pipe)
    case Nil
    then show ?thesis by simp
  next
    case (Cons p ps)
    obtain k d where "p = (k, d)" by (cases p)
    with Cons Cons.prems Cons.IH [of ps] \<open>\<forall>e\<in>set (e # es). e = None\<close> show ?thesis by simp
  qed
qed

lemma pushBatchToRedis_err:
  assumes "rdb w = Some r" "\<forall>l \<in> set logs. batch_key l \<noteq> None"
  shows "\<exists>w' err. pushBatchToRedis js w logs = Inr (w', err)
           \<and> (err = None \<longleftrightarrow> accepted r (batch_cmds js logs))"
proof -
  from queue_cmds_ok [OF assms(2), of js w "[]"] obtain w1 where
    q: "queue_cmds js w [] logs = Inr (w1, batch_cmds js logs)" by auto
  let ?pipe = "batch_cmds js logs"
  obtain r' es where x: "exec_cmds r ?pipe = (r', es)" by (cases "exec_cmds r ?pipe")
  with exec_cmds_errs [of r ?pipe] have es: "es = map (\<lambda>(k, d). reject r k d) ?pipe" by simp
  have acc: "accepted r ?pipe \<longleftrightarrow> (\<forall>e \<in> set es. e = None)"
    unfolding accepted_def es by (auto simp: list_all_iff)
  show ?thesis
  proof (cases "first_err es")
    case None
    then have all: "\<forall>e \<in> set es. e = None" by (simp add: first_err_None)
    from assms(1) q x None check_cmds_all_None [OF all, of "w1\<lparr>rdb := Some r'\<rparr>" None ?pipe]
    have "pushBatchToRedis js w logs = Inr (w1\<lparr>rdb := Some r'\<rparr>, None)"
      by (simp add: pushBatchToRedis_def Pipeline_Exec_def)
    with acc all show ?thesis by simp
  next
    case (Some e)
    then have "\<not> (\<forall>e \<in> set es. e = None)" by (simp add: first_err_None [symmetric])
    moreover from assms(1) q x Some
    have "pushBatchToRedis js w logs =
            Inr (zap (w1\<lparr>rdb := Some r'\<rparr>) ZWarn ''Pipeline execution failed'' [ZErr e], Some e)"
      by (simp add: pushBatchToRedis_def Pipeline_Exec_def)
    ultimately show ?thesis using acc by simp
  qed
qed

lemma push_step_result:
  assumes "rdb w = Some r" "\<forall>l \<in> set batch. batch_key l \<noteq> None"
  shows "\<exists>w' failed. push_step js fp w batch = Inr (w', failed)
           \<and> (failed \<longleftrightarrow> \<not> accepted r (batch_cmds js batch))
           \<and> files w' = files w"
proof (cases "batch = []")
  case True
  then have "push_step js fp w batch = Inr (w, False)
      \<and> (False \<longleftrightarrow> \<not> accepted r (batch_cmds js batch)) \<and> files w = files w"
    by (simp add: push_step_def batch_cmds_def accepted_def)
  then show ?thesis by blast
next
  case False
  from pushBatchToRedis_err [OF assms, of js] obtain w' err where
    p: "pushBatchToRedis js w batch = Inr (w', err)"
       "err = None \<longleftrightarrow> accepted r (batch_cmds js batch)" by blast
  from files_pushBatchToRedis [of js w batch _ w' err] p(1) have f: "files w' = files w" by simp
  show ?thesis
  proof (cases err)
    case None
    with False p f show ?thesis by (auto simp: push_step_def files_zap)
  next
    case (Some e)
    with False p f show ?thesis by (auto simp: push_step_def)
  qed
qed

lemma os_open_Inr: "os_open w name = Inr content \<Longrightarrow> map_of (files w) name = Some content"
  by (auto simp: os_open_def split: option.splits)

lemma map_of_os_rename:
  "map_of fs old = Some c \<Longrightarrow> old \<noteq> new \<Longrightarrow>
   map_of (os_rename fs old new) old = None \<and> map_of (os_rename fs old new) new = Some c"
  by (simp add: os_rename_def update_conv' delete_conv')

lemma map_of_os_remove: "map_of (os_remove fs name) name = None"
  by (simp add: os_remove_def delete_conv')

text \<open>
  What the loop body does when nothing goes wrong. Take a file the scanner can open, in a
  cycle (the sink client is set), whose records all hold the four identity fields as strings,
  and read "line" as a line the scanner delivers. The scanner returns, and what becomes of
  the file follows from two facts alone. If some line the scanner delivers is not empty and does
  not parse, the file is renamed with the suffix \<^verbatim>\<open>.corrupt\<close>, whatever the sink
  answers: its old name is gone and the new name holds its content. Otherwise, if the sink
  accepts every command of the batch (or there is none), the file is removed. Otherwise the
  directory is exactly as it was.
\<close>

lemma recover_file_disposition:
  assumes "os_open w name = Inr content"
    and "Scanner_lines content = (ls, too_long)"
    and "rdb w = Some r"
    and "\<forall>l \<in> set (records_of js ls). batch_key l \<noteq> None"
  shows "\<exists>w'. recover_file js w name = Inr w'
     \<and> (has_bad_line js ls \<longrightarrow>
          files w' = os_rename (files w) name (name @ ''.corrupt'')
          \<and> map_of (files w') name = None
          \<and> map_of (files w') (name @ ''.corrupt'') = Some content)
     \<and> (\<not> has_bad_line js ls \<and> accepted r (batch_cmds js (records_of js ls)) \<longrightarrow>
          files w' = os_remove (files w) name \<and> map_of (files w') name = None)
     \<and> (\<not> has_bad_line js ls \<and> \<not> accepted r (batch_cmds js (records_of js ls)) \<longrightarrow>
          files w' = files w)"
proof -
  let ?fp = "filepath_Join (fallbackPath w) name"
  obtain w1 batch corrupt where sl: "scan_loop js ?fp w [] False ls = (w1, batch, corrupt)"
    by (cases "scan_loop js ?fp w [] False ls")
  from scan_loop_snd [of js ?fp w "[]" False ls] sl
  have b: "batch = records_of js ls" and c: "corrupt = has_bad_line js ls" by simp_all
  from files_scan_loop [of js ?fp w "[]" False ls] sl have f1: "files w1 = files w" by simp
  from rdb_scan_loop [of js ?fp w "[]" False ls] sl assms(3) have r1: "rdb w1 = Some r" by simp
  from assms(4) b have "\<forall>l \<in> set batch. batch_key l \<noteq> None" by simp
  from push_step_result [OF r1 this, of js ?fp] obtain w2 failed where
    ps: "push_step js ?fp w1 batch = Inr (w2, failed)"
        "failed \<longleftrightarrow> \<not> accepted r (batch_cmds js batch)" "files w2 = files w1"
    by blast
  let ?w3 = "if too_long then zap w2 ZError ''Error reading fallback log line by line'' [ZErr ErrTooLong]
             else w2"
  have f3: "files ?w3 = files w" using ps(3) f1 by (simp add: files_zap)
  have rf: "recover_file js w name = Inr (dispose ?w3 name corrupt failed)"
    using assms(1,2) sl ps(1) by (simp add: recover_file_def)
  have fd: "files (dispose ?w3 name corrupt failed) =
      (if corrupt then os_rename (files w) name (name @ ''.corrupt'')
       else if \<not> failed then os_remove (files w) name else files w)"
    unfolding dispose_def using f3 by (simp split: if_splits)
  from os_open_Inr [OF assms(1)] have m: "map_of (files w) name = Some content" .
  have ne: "name \<noteq> name @ ''.corrupt''" by simp
  note ren = map_of_os_rename [OF m ne]
  show ?thesis
    using rf fd ren map_of_os_remove [of "files w" name] b c ps(2) by auto
qed

lemma example_line_text:
  \<open>example_line = ''{"facility_id":"F1","instance_id":"i-1","instance_type":"api","level":"info","message":"f","service_name":"svc"}''\<close>
  by (simp add: example_line_def example_record_def json_quote_def)

lemma Scanner_lines_corrupt:
  "Scanner_lines (''not json'' @ [CHR 0x0A] @ example_line @ [CHR 0x0A]) =
     ([''not json'', example_line], False)"
  by (simp add: example_line_text Scanner_lines_def MaxScanTokenSize_def dropCR_def)

lemma Scanner_lines_good:
  "Scanner_lines (example_line @ [CHR 0x0A]) = ([example_line], False)"
  by (simp add: example_line_text Scanner_lines_def MaxScanTokenSize_def dropCR_def)

lemma long_line_text:
  \<open>long_line =
     ''{"facility_id":"F1","instance_id":"i-1","instance_type":"api","level":"info","message":"''
     @ replicate MaxScanTokenSize (CHR ''x'') @ ''","service_name":"svc"}''\<close>
  by (simp add: long_line_def long_record_def json_quote_def)

lemma example_Unmarshal_bad: "Unmarshal example_json ''not json'' = Inl (ErrMsg ''invalid character'')"
  by (simp add: example_json_def example_Unmarshal_def example_line_text long_line_text)

lemma example_Unmarshal_good: "Unmarshal example_json example_line = Inr example_record"
  by (simp add: example_json_def example_Unmarshal_def)

lemma example_line_nonempty: "example_line \<noteq> []"
  by (simp add: example_line_text)

lemma records_of_corrupt: "records_of example_json [''not json'', example_line] = [example_record]"
  by (simp add: records_of_def example_Unmarshal_bad example_Unmarshal_good example_line_nonempty)

lemma records_of_good: "records_of example_json [example_line] = [example_record]"
  by (simp add: records_of_def example_Unmarshal_good example_line_nonempty)

lemma has_bad_line_corrupt: "has_bad_line example_json [''not json'', example_line]"
  by (simp add: has_bad_line_def example_Unmarshal_bad)

lemma has_bad_line_good: "\<not> has_bad_line example_json [example_line]"
  by (simp add: has_bad_line_def example_Unmarshal_good)

lemma example_batch_cmds:
  "batch_cmds example_json [example_record] = [(''applogs:F1:api:svc:i-1'', example_line)]"
  by (simp add: batch_cmds_def example_batch_key example_Marshal_record)

lemma recover_file_disposition_examples:
  "has_bad_line example_json [''not json'', example_line]
   \<and> (\<exists>w'. recover_file example_json corrupt_world spool_name = Inr w'
        \<and> files w' = os_rename (files corrupt_world) spool_name (spool_name @ ''.corrupt'')
        \<and> map_of (files w') spool_name = None
        \<and> map_of (files w') (spool_name @ ''.corrupt'') =
            Some (''not json'' @ [CHR 0x0A] @ example_line @ [CHR 0x0A]))
   \<and> \<not> has_bad_line example_json [example_line]
   \<and> accepted healthy_sink (batch_cmds example_json (records_of example_json [example_line]))
   \<and> (\<exists>w'. recover_file example_json (spooled_world healthy_sink) spool_name = Inr w'
        \<and> files w' = os_remove (files (spooled_world healthy_sink)) spool_name
        \<and> map_of (files w') spool_name = None)
   \<and> \<not> accepted down_sink (batch_cmds example_json (records_of example_json [example_line]))
   \<and> (\<exists>w'. recover_file example_json (spooled_world down_sink) spool_name = Inr w'
        \<and> files w' = files (spooled_world down_sink))"
proof -
  have o1: "os_open corrupt_world spool_name = Inr (''not json'' @ [CHR 0x0A] @ example_line @ [CHR 0x0A])"
    by (simp add: os_open_def corrupt_world_def example_world_def)
  have o2: "os_open (spooled_world r) spool_name = Inr (example_line @ [CHR 0x0A])" for r
    by (simp add: os_open_def spooled_world_def example_world_def)
  have r1: "rdb corrupt_world = Some healthy_sink"
    by (simp add: corrupt_world_def example_world_def)
  have r2: "rdb (spooled_world r) = Some r" for r
    by (simp add: spooled_world_def example_world_def)
  have k1: "\<forall>l \<in> set (records_of example_json [''not json'', example_line]). batch_key l \<noteq> None"
    by (simp add: records_of_corrupt example_batch_key)
  have k2: "\<forall>l \<in> set (records_of example_json [example_line]). batch_key l \<noteq> None"
    by (simp add: records_of_good example_batch_key)
  have a: "accepted healthy_sink (batch_cmds example_json (records_of example_json [example_line]))"
    by (simp add: records_of_good example_batch_cmds accepted_def healthy_sink_def)
  have na: "\<not> accepted down_sink (batch_cmds example_json (records_of example_json [example_line]))"
    by (simp add: records_of_good example_batch_cmds accepted_def down_sink_def)
  from recover_file_disposition [OF o1 Scanner_lines_corrupt r1 k1] has_bad_line_corrupt
  have 1: "\<exists>w'. recover_file example_json corrupt_world spool_name = Inr w'
        \<and> files w' = os_rename (files corrupt_world) spool_name (spool_name @ ''.corrupt'')
        \<and> map_of (files w') spool_name = None
        \<and> map_of (files w') (spool_name @ ''.corrupt'') =
            Some (''not json'' @ [CHR 0x0A] @ example_line @ [CHR 0x0A])"
    by blast
  from recover_file_disposition [OF o2 Scanner_lines_good r2 k2] has_bad_line_good a
  have 2: "\<exists>w'. recover_file example_json (spooled_world healthy_sink) spool_name = Inr w'
        \<and> files w' = os_remove (files (spooled_world healthy_sink)) spool_name
        \<and> map_of (files w') spool_name = None"
    by blast
  from recover_file_disposition [OF o2 Scanner_lines_good r2 k2] has_bad_line_good na
  have 3: "\<exists>w'. recover_file example_json (spooled_world down_sink) spool_name = Inr w'
        \<and> files w' = files (spooled_world down_sink)"
    by blast
  from has_bad_line_corrupt 1 has_bad_line_good a 2 na 3 show ?thesis by blast
qed

section \<open>The recovery scanner: files without a record\<close>



lemma Scanner_lines_short:
  assumes "\<forall>l \<in> set (split_lines [] content). length l < MaxScanTokenSize"
  shows "Scanner_lines content = (map dropCR (split_lines [] content), False)"
proof -
  from assms have tw: "takeWhile (\<lambda>l. length l < MaxScanTokenSize) (split_lines [] content)
      = split_lines [] content"
    by (simp add: takeWhile_eq_all_conv)
  show ?thesis unfolding Scanner_lines_def Let_def tw by simp
qed


lemma spool_name_fallback: "is_fallback_file spool_name"
  by (simp add: is_fallback_file_def spool_name_def filepath_Ext_def strings_HasPrefix_def)


section \<open>The recovery scanner: a line too long for the scanner\<close>

lemma split_lines_line:
  "CHR 0x0A \<notin> set l \<Longrightarrow>
   split_lines acc (l @ CHR 0x0A # rest) = (rev acc @ l) # split_lines [] rest"
  by (induction l arbitrary: acc) auto

lemma long_line_no_newline: "CHR 0x0A \<notin> set long_line"
  by (simp add: long_line_text)

lemma long_line_length: "\<not> length long_line < MaxScanTokenSize"
  by (simp add: long_line_text)

lemma Scanner_lines_long:
  "Scanner_lines (long_line @ [CHR 0x0A] @ ''not json'' @ [CHR 0x0A]) = ([], True)"
proof -
  have "split_lines [] (long_line @ CHR 0x0A # (''not json'' @ [CHR 0x0A])) =
          (rev [] @ long_line) # split_lines [] (''not json'' @ [CHR 0x0A])"
    by (rule split_lines_line [OF long_line_no_newline])
  then have "split_lines [] (long_line @ [CHR 0x0A] @ ''not json'' @ [CHR 0x0A]) =
          [long_line, ''not json'']"
    by simp
  then show ?thesis
    unfolding Scanner_lines_def Let_def by (simp add: long_line_length)
qed

lemma long_line_neq: "long_line \<noteq> example_line"
proof
  assume "long_line = example_line"
  then have "length long_line = length example_line" by simp
  then show False by (simp add: long_line_text example_line_text MaxScanTokenSize_def)
qed

lemma example_Unmarshal_long: "Unmarshal example_json long_line = Inr long_record"
  by (simp add: example_json_def example_Unmarshal_def long_line_neq)

text \<open>
  C7 on the code. The file of \<open>long_world\<close> has a well-formed line (the reader accepts it, and
  its record holds the four identity fields) followed by a malformed one. The first line has
  more than \<^verbatim>\<open>MaxScanTokenSize\<close> bytes, so the scanner delivers no line and sets its
  error. The loop body logs that error and then removes the file: the file is not renamed,
  and nothing has been sent to the sink.
\<close>

theorem long_line_file_deleted:
  "Unmarshal example_json long_line = Inr long_record
   \<and> batch_key long_record = Some ''applogs:F1:api:svc:i-1''
   \<and> Unmarshal example_json ''not json'' = Inl (ErrMsg ''invalid character'')
   \<and> is_fallback_file spool_name
   \<and> files long_world = [(spool_name, long_line @ [CHR 0x0A] @ ''not json'' @ [CHR 0x0A])]
   \<and> (\<exists>w'. recoverFallbackLogs example_json long_world = Inr w'
         \<and> files w' = []
         \<and> rdb w' = Some healthy_sink
         \<and> zlog w' = [\<lparr>zlevel = ZError, zmsg = ''Error reading fallback log line by line'',
                          zfields = [ZErr ErrTooLong]\<rparr>])"
proof -
  have k: "batch_key long_record = Some ''applogs:F1:api:svc:i-1''"
    by (simp add: batch_key_def long_record_def assert_string_def applogs_key_def)
  have o: "os_open long_world spool_name = Inr (long_line @ [CHR 0x0A] @ ''not json'' @ [CHR 0x0A])"
    by (simp add: os_open_def long_world_def example_world_def)
  have rf: "recover_file example_json long_world spool_name =
      Inr (zap (long_world\<lparr>files := os_remove (files long_world) spool_name\<rparr>) ZError
             ''Error reading fallback log line by line'' [ZErr ErrTooLong])"
    using o Scanner_lines_long
    by (simp add: recover_file_def push_step_def dispose_def zap_def)
  have c: "recoverFallbackLogs example_json long_world = scan_files example_json long_world [spool_name]"
    by (simp add: recoverFallbackLogs_def long_world_def example_world_def os_ReadDir_def)
  have d: "zap (long_world\<lparr>files := os_remove (files long_world) spool_name\<rparr>) ZError
             ''Error reading fallback log line by line'' [ZErr ErrTooLong] =
           (example_world 10 healthy_sink)
              \<lparr>zlog := [\<lparr>zlevel = ZError, zmsg = ''Error reading fallback log line by line'',
                          zfields = [ZErr ErrTooLong]\<rparr>]\<rparr>"
    by (simp add: long_world_def example_world_def os_remove_def zap_def)
  from c rf d spool_name_fallback
  have "recoverFallbackLogs example_json long_world =
       Inr ((example_world 10 healthy_sink)
              \<lparr>zlog := [\<lparr>zlevel = ZError, zmsg = ''Error reading fallback log line by line'',
                          zfields = [ZErr ErrTooLong]\<rparr>]\<rparr>)"
    by simp
  with example_Unmarshal_long k example_Unmarshal_bad spool_name_fallback show ?thesis
    by (simp add: example_world_def long_world_def)
qed

text \<open>
  For comparison: when every line of the file is shorter than \<^verbatim>\<open>MaxScanTokenSize\<close>
  and every record holds the four identity fields as strings, a file with a line that does
  not parse is read to its end, the commands of all its records are executed on the sink in
  the order of the lines, and the file is renamed.
\<close>

lemma rdb_push_step:
  assumes "rdb w = Some r" "\<forall>l \<in> set batch. batch_key l \<noteq> None"
    "push_step js fp w batch = Inr (w', failed)"
  shows "rdb w' = Some (fst (exec_cmds r (batch_cmds js batch)))"
proof (cases "batch = []")
  case True
  with assms show ?thesis by (simp add: push_step_def batch_cmds_def)
next
  case False
  from pushBatchToRedis_err [OF assms(1,2), of js] obtain w1 err where
    p: "pushBatchToRedis js w batch = Inr (w1, err)" by blast
  from pushBatchToRedis_sink [OF assms(1) p] obtain w0 pipe where
    q: "queue_cmds js w [] batch = Inr (w0, pipe)" "rdb w1 = Some (fst (exec_cmds r pipe))"
    by blast
  from queue_cmds_ok [OF assms(2), of js w "[]"] q(1) have "pipe = batch_cmds js batch" by auto
  with q(2) have r1: "rdb w1 = Some (fst (exec_cmds r (batch_cmds js batch)))" by simp
  show ?thesis
  proof (cases err)
    case None
    with False p assms(3) have "w' = zap w1 ZInfo ''Batch log successfully sent to Redis''
        [ZString ''file'' fp, ZInt ''count'' (length batch)]"
      by (simp add: push_step_def)
    with r1 show ?thesis by (simp add: rdb_zap)
  next
    case (Some e)
    with False p assms(3) have "w' = w1" by (simp add: push_step_def)
    with r1 show ?thesis by simp
  qed
qed

lemma rdb_dispose: "rdb (dispose w name c f) = rdb w"
  by (simp add: dispose_def)

lemma corrupt_file_isolated:
  assumes "os_open w name = Inr content"
    and "\<forall>l \<in> set (split_lines [] content). length l < MaxScanTokenSize"
    and "rdb w = Some r"
    and "\<forall>l \<in> set (records_of js (map dropCR (split_lines [] content))). batch_key l \<noteq> None"
    and "has_bad_line js (map dropCR (split_lines [] content))"
  shows "\<exists>w'. recover_file js w name = Inr w'
     \<and> rdb w' = Some (fst (exec_cmds r
                   (batch_cmds js (records_of js (map dropCR (split_lines [] content))))))
     \<and> map_of (files w') name = None
     \<and> map_of (files w') (name @ ''.corrupt'') = Some content"
proof -
  let ?ls = "map dropCR (split_lines [] content)"
  let ?fp = "filepath_Join (fallbackPath w) name"
  have sc: "Scanner_lines content = (?ls, False)" by (rule Scanner_lines_short [OF assms(2)])
  obtain w1 batch corrupt where sl: "scan_loop js ?fp w [] False ?ls = (w1, batch, corrupt)"
    by (cases "scan_loop js ?fp w [] False ?ls")
  from scan_loop_snd [of js ?fp w "[]" False ?ls] sl assms(5)
  have b: "batch = records_of js ?ls" and c: "corrupt" by simp_all
  from files_scan_loop [of js ?fp w "[]" False ?ls] sl have f1: "files w1 = files w" by simp
  from rdb_scan_loop [of js ?fp w "[]" False ?ls] sl assms(3) have r1: "rdb w1 = Some r" by simp
  from assms(4) b have k: "\<forall>l \<in> set batch. batch_key l \<noteq> None" by simp
  from push_step_result [OF r1 k, of js ?fp] obtain w2 failed where
    ps: "push_step js ?fp w1 batch = Inr (w2, failed)" "files w2 = files w1" by blast
  from rdb_push_step [OF r1 k ps(1)] b
  have r2: "rdb w2 = Some (fst (exec_cmds r (batch_cmds js (records_of js ?ls))))" by simp
  have rf: "recover_file js w name = Inr (dispose w2 name True failed)"
    using assms(1) sc sl ps(1) c by (simp add: recover_file_def)
  have fd: "files (dispose w2 name True failed) = os_rename (files w) name (name @ ''.corrupt'')"
    using ps(2) f1 by (simp add: dispose_def)
  from os_open_Inr [OF assms(1)] have m: "map_of (files w) name = Some content" .
  have ne: "name \<noteq> name @ ''.corrupt''" by simp
  from rf fd r2 map_of_os_rename [OF m ne] show ?thesis by (simp add: rdb_dispose)
qed

section \<open>The recovery scanner: a record without identity fields\<close>

lemma Scanner_lines_bare:
  "Scanner_lines (''not json'' @ [CHR 0x0A] @ ''{}'' @ [CHR 0x0A]) = ([''not json'', ''{}''], False)"
  by (simp add: Scanner_lines_def MaxScanTokenSize_def dropCR_def)

lemma example_Unmarshal_bare: "Unmarshal example_json ''{}'' = Inr []"
  by (simp add: example_json_def example_Unmarshal_def example_line_text long_line_text)

text \<open>
  C6 on the code. The file of \<open>bare_world\<close> passes the test of the cycle's loop and has a
  line that fails to parse, so it is to be renamed whatever the batch write does. Its second
  line parses to a record without \<^verbatim>\<open>facility_id\<close>: the type assertion of
  \<^verbatim>\<open>pushBatchToRedis\<close> panics before any command is sent, the cycle ends there, and
  the file is still in the directory under its name, neither renamed nor removed.
\<close>

theorem corrupt_file_not_renamed:
  "Unmarshal example_json ''not json'' = Inl (ErrMsg ''invalid character'')
   \<and> Unmarshal example_json ''{}'' = Inr []
   \<and> is_fallback_file spool_name
   \<and> files bare_world = [(spool_name, ''not json'' @ [CHR 0x0A] @ ''{}'' @ [CHR 0x0A])]
   \<and> (\<exists>w'. recoverFallbackLogs example_json bare_world = Inl (Panic InterfaceConversion, w')
         \<and> files w' = files bare_world
         \<and> map_of (files w') (spool_name @ ''.corrupt'') = None
         \<and> rdb w' = Some healthy_sink)"
proof -
  let ?fp = "filepath_Join (fallbackPath bare_world) spool_name"
  let ?w1 = "zap bare_world ZError ''Invalid JSON in fallback log line''
               [ZString ''file'' ?fp, ZString ''line'' ''not json'']"
  have o: "os_open bare_world spool_name = Inr (''not json'' @ [CHR 0x0A] @ ''{}'' @ [CHR 0x0A])"
    by (simp add: os_open_def bare_world_def example_world_def)
  have sl: "scan_loop example_json ?fp bare_world [] False [''not json'', ''{}''] = (?w1, [[]], True)"
    by (simp add: example_Unmarshal_bad example_Unmarshal_bare)
  have r1: "rdb ?w1 = Some healthy_sink"
    by (simp add: zap_def bare_world_def example_world_def)
  have pb: "pushBatchToRedis example_json ?w1 [[]] = Inl (Panic InterfaceConversion, ?w1)"
    using r1 by (simp add: pushBatchToRedis_def batch_key_def assert_string_def)
  have ps: "push_step example_json ?fp ?w1 [[]] = Inl (Panic InterfaceConversion, ?w1)"
    using pb by (simp add: push_step_def)
  have rf: "recover_file example_json bare_world spool_name = Inl (Panic InterfaceConversion, ?w1)"
    using o Scanner_lines_bare sl ps by (simp add: recover_file_def)
  have c: "recoverFallbackLogs example_json bare_world =
      scan_files example_json bare_world [spool_name]"
    by (simp add: recoverFallbackLogs_def bare_world_def example_world_def os_ReadDir_def)
  from c rf spool_name_fallback
  have run: "recoverFallbackLogs example_json bare_world = Inl (Panic InterfaceConversion, ?w1)"
    by simp
  have f: "files ?w1 = files bare_world" by (simp add: files_zap)
  have n: "map_of (files ?w1) (spool_name @ ''.corrupt'') = None"
    by (simp add: files_zap bare_world_def spool_name_def)
  have fb: "files bare_world = [(spool_name, ''not json'' @ [CHR 0x0A] @ ''{}'' @ [CHR 0x0A])]"
    by (simp add: bare_world_def)
  from example_Unmarshal_bad example_Unmarshal_bare spool_name_fallback fb run f n r1
  show ?thesis by blast
qed

end
